theory Spec2Isabelle
  imports Main
begin

section \<open>Data model of alerts/alert_manager.py\<close>

text \<open>
  The enum \<open>AlertPriority\<close> is imported from \<open>channels/base_channel.py\<close>. The manager
  only compares members for equality and reads \<open>.value\<close>; the latter is a parameter of the
  model (field \<open>priority_value\<close> of \<open>world\<close> below).
\<close>

datatype AlertPriority = LOW | MEDIUM | HIGH | CRITICAL

type_synonym ref = nat
type_synonym metadata = "(string \<times> string) list"
type_synonym market_data = "(string \<times> int) list"

text \<open>
  The dataclass \<open>Alert\<close>. The field \<open>id\<close> is called \<open>alert_id\<close> here. Times are
  \<open>datetime\<close> values, modelled as an integer number of microseconds. \<open>retry_count\<close> starts
  at 0 and is only ever incremented.
\<close>

record Alert =
  alert_id :: string
  title :: string
  message :: string
  priority :: AlertPriority
  symbol :: string
  timestamp :: int
  channels :: "string list"
  metadata :: metadata
  sent :: bool
  retry_count :: nat

text \<open>One entry \<open>rate_limits[channel][priority.value]\<close> of the configuration.\<close>

record priority_limit =
  max_per_hour :: "int option"
  max_per_minute :: "int option"

text \<open>The keys of \<open>config\<close> that are read after construction, \<open>None\<close> when absent.\<close>

record Config =
  max_history_size :: "int option"
  default_channels :: "(string \<rightharpoonup> string list) option"

datatype log_level = DEBUG | INFO | WARNING | ERROR

text \<open>
  How an awaited external call ends. The handlers of the manager are all
  \<open>except Exception\<close>: they catch a raise of class \<open>Exception\<close> (\<open>SendRaises\<close>,
  \<open>CheckRaises\<close>) and let any other \<open>BaseException\<close> through (\<open>SendAborts\<close>,
  \<open>CheckAborts\<close>): \<open>asyncio.CancelledError\<close>, raised at the \<open>await\<close> when the task is
  cancelled by \<open>stop()\<close>, \<open>KeyboardInterrupt\<close>, \<open>SystemExit\<close>.
\<close>

datatype send_outcome = SendReturns | SendRaises | SendAborts

text \<open>
  What a function of the manager hands back: it returned with this state, or an
  exception left it uncaught in this state.
\<close>

datatype 'a result = Returned 'a | Uncaught 'a

fun state_of :: "'a result \<Rightarrow> 'a" where
  "state_of (Returned s) = s"
| "state_of (Uncaught s) = s"

fun returned :: "'a result \<Rightarrow> bool" where
  "returned (Returned s) = True"
| "returned (Uncaught s) = False"

text \<open>
  A channel is an external object; the manager only awaits \<open>send_alert(alert)\<close>. Its
  behaviour is a function of the alert and of the number of earlier sends on that
  channel.
\<close>

type_synonym channel = "Alert \<Rightarrow> nat \<Rightarrow> send_outcome"

text \<open>
  A trigger is an external object; the awaited \<open>check(market_data)\<close> raises, is aborted,
  or returns a pair \<open>(should_trigger, alert_data)\<close>. \<open>alert_data\<close> is splatted into
  \<open>create_alert\<close>: \<open>BadKwargs\<close> is a dict that does not fit its signature (a
  \<open>TypeError\<close>).
\<close>

datatype alert_data =
  BadKwargs
  | Kwargs string string string "AlertPriority option" "string list option" "metadata option"

datatype check_result = CheckRaises | CheckAborts | CheckReturns bool alert_data

type_synonym trigger = "market_data \<Rightarrow> check_result"

text \<open>
  The state of an \<open>AlertManager\<close>. Alerts are mutable objects shared between the queue
  and the history, so both hold references into \<open>heap\<close>. \<open>send_log\<close>, \<open>sleep_log\<close>,
  \<open>trigger_log\<close> and \<open>log\<close> record the calls made to the channels, to \<open>asyncio.sleep\<close>,
  to the triggers and to the logger; \<open>clock_reads\<close> counts the calls of \<open>datetime.now()\<close>.
\<close>

record AlertManager =
  config :: Config
  registry :: "(string \<times> channel) list"
  triggers :: "(string \<times> trigger) list"
  alert_queue :: "ref list"
  alert_history :: "ref list"
  rate_limits :: "string \<rightharpoonup> (string \<rightharpoonup> priority_limit)"
  sent_alerts_tracker :: "string \<rightharpoonup> int list"
  duplicate_window :: int
  recent_alerts :: "string set"
  workers_running :: bool
  heap :: "Alert list"
  send_log :: "(string \<times> ref \<times> send_outcome) list"
  sleep_log :: "nat list"
  trigger_log :: "string list"
  log :: "(log_level \<times> string) list"
  clock_reads :: nat

text \<open>
  What the process reads from outside: the value of an enum member, the builtin
  \<open>hash\<close> on strings, \<open>strftime('%Y%m%d_%H%M%S')\<close>, the successive readings of
  \<open>datetime.now()\<close>, and whether the task is cancelled during its \<open>n\<close>-th
  \<open>asyncio.sleep\<close>.
\<close>

record world =
  priority_value :: "AlertPriority \<Rightarrow> string"
  py_hash :: "string \<Rightarrow> int"
  strftime :: "int \<Rightarrow> string"
  now_at :: "nat \<Rightarrow> int"
  sleep_cancelled :: "nat \<Rightarrow> bool"

definition datetime_now :: "world \<Rightarrow> AlertManager \<Rightarrow> int \<times> AlertManager" where
  "datetime_now w s = (now_at w (clock_reads s), s\<lparr>clock_reads := Suc (clock_reads s)\<rparr>)"

section \<open>Rate limiting\<close>

text \<open>
  \<open>if max_per_hour: if count >= max_per_hour: return False\<close>: a limit that is absent
  (\<open>None\<close>) or zero is falsy and never rejects.
\<close>

definition truthy :: "int option \<Rightarrow> bool" where
  "truthy v = (case v of None \<Rightarrow> False | Some n \<Rightarrow> n \<noteq> 0)"

definition limit_reached :: "int option \<Rightarrow> nat \<Rightarrow> bool" where
  "limit_reached v n = (case v of None \<Rightarrow> False | Some m \<Rightarrow> m \<noteq> 0 \<and> m \<le> int n)"

definition hour_us :: int where
  "hour_us = 3600000000"

definition minute_us :: int where
  "minute_us = 60000000"

text \<open>\<open>key = f"{channel_name}_{alert.priority.value}"\<close>\<close>

definition tracker_key :: "world \<Rightarrow> string \<Rightarrow> AlertPriority \<Rightarrow> string" where
  "tracker_key w channel_name p = channel_name @ ''_'' @ priority_value w p"

text \<open>\<open>rate_limits.get(channel_name, {}).get(alert.priority.value, {})\<close>\<close>

definition lookup_limit ::
  "world \<Rightarrow> (string \<rightharpoonup> (string \<rightharpoonup> priority_limit)) \<Rightarrow> string \<Rightarrow> AlertPriority \<Rightarrow> priority_limit" where
  "lookup_limit w rl channel_name p =
     (case rl channel_name of
        None \<Rightarrow> \<lparr>max_per_hour = None, max_per_minute = None\<rparr>
      | Some channel_limits \<Rightarrow>
          (case channel_limits (priority_value w p) of
             None \<Rightarrow> \<lparr>max_per_hour = None, max_per_minute = None\<rparr>
           | Some l \<Rightarrow> l))"

definition tracker_get :: "(string \<rightharpoonup> int list) \<Rightarrow> string \<Rightarrow> int list" where
  "tracker_get tr key = (case tr key of None \<Rightarrow> [] | Some xs \<Rightarrow> xs)"

text \<open>
  The \<open>for channel_name in alert.channels\<close> loop of \<open>_check_rate_limit\<close>. A key that is
  not yet in the tracker is first bound to \<open>[]\<close>, which \<open>tracker_get\<close> reads for it.
\<close>

fun rate_limit_loop ::
  "world \<Rightarrow> (string \<rightharpoonup> (string \<rightharpoonup> priority_limit)) \<Rightarrow> int \<Rightarrow> AlertPriority \<Rightarrow>
     string list \<Rightarrow> (string \<rightharpoonup> int list) \<Rightarrow> bool \<times> (string \<rightharpoonup> int list)" where
  "rate_limit_loop w rl now p [] tr = (True, tr)"
| "rate_limit_loop w rl now p (channel_name # rest) tr =
     (let lim = lookup_limit w rl channel_name p in
      if \<not> truthy (max_per_hour lim) \<and> \<not> truthy (max_per_minute lim)
      then rate_limit_loop w rl now p rest tr
      else
        (let key = tracker_key w channel_name p;
             hour_ago = now - hour_us;
             minute_ago = now - minute_us;
             tracker = filter (\<lambda>ts. ts > hour_ago) (tracker_get tr key);
             tr' = tr(key \<mapsto> tracker)
         in if limit_reached (max_per_hour lim) (length tracker) then (False, tr')
            else if limit_reached (max_per_minute lim)
                      (length (filter (\<lambda>ts. ts > minute_ago) tracker)) then (False, tr')
            else rate_limit_loop w rl now p rest tr'))"

definition check_rate_limit :: "world \<Rightarrow> AlertManager \<Rightarrow> Alert \<Rightarrow> bool \<times> AlertManager" where
  "check_rate_limit w s alert =
     (let (now, s1) = datetime_now w s;
          (ok, tr) = rate_limit_loop w (rate_limits s1) now (priority alert) (channels alert)
                       (sent_alerts_tracker s1)
      in (ok, s1\<lparr>sent_alerts_tracker := tr\<rparr>))"

text \<open>\<open>_track_sent_alert\<close>: one timestamp per entry of \<open>alert.channels\<close>.\<close>

fun track_loop ::
  "world \<Rightarrow> int \<Rightarrow> AlertPriority \<Rightarrow> string list \<Rightarrow> (string \<rightharpoonup> int list) \<Rightarrow> (string \<rightharpoonup> int list)" where
  "track_loop w now p [] tr = tr"
| "track_loop w now p (channel_name # rest) tr =
     (let key = tracker_key w channel_name p
      in track_loop w now p rest (tr(key \<mapsto> tracker_get tr key @ [now])))"

definition track_sent_alert :: "world \<Rightarrow> AlertManager \<Rightarrow> Alert \<Rightarrow> AlertManager" where
  "track_sent_alert w s alert =
     (let (now, s1) = datetime_now w s
      in s1\<lparr>sent_alerts_tracker :=
              track_loop w now (priority alert) (channels alert) (sent_alerts_tracker s1)\<rparr>)"

section \<open>Deduplication\<close>

text \<open>
  \<open>_is_duplicate\<close>. The cutoff is computed and the loop then copies every element of
  \<open>recent_alerts\<close> into \<open>recent_to_keep\<close>.
\<close>

definition alert_hash :: "Alert \<Rightarrow> string" where
  "alert_hash alert = symbol alert @ ''_'' @ title alert @ ''_'' @ message alert"

definition is_duplicate :: "world \<Rightarrow> AlertManager \<Rightarrow> Alert \<Rightarrow> bool \<times> AlertManager" where
  "is_duplicate w s alert =
     (let (current_time, s1) = datetime_now w s;
          cutoff_time = current_time - duplicate_window s1;
          recent_to_keep = Set.filter (\<lambda>recent_hash. True) (recent_alerts s1);
          s2 = s1\<lparr>recent_alerts := recent_to_keep\<rparr>
      in if alert_hash alert \<in> recent_alerts s2 then (True, s2)
         else (False, s2\<lparr>recent_alerts := insert (alert_hash alert) (recent_alerts s2)\<rparr>))"

section \<open>History\<close>

text \<open>Python's \<open>xs[start:]\<close>: a negative start counts from the end, and \<open>-0\<close> is \<open>0\<close>.\<close>

definition py_slice_from :: "int \<Rightarrow> 'a list \<Rightarrow> 'a list" where
  "py_slice_from start xs =
     (let n = int (length xs);
          i = (if start < 0 then max 0 (start + n) else min start n)
      in drop (nat i) xs)"

definition cleanup_history :: "AlertManager \<Rightarrow> AlertManager" where
  "cleanup_history s =
     (let max_history = (case max_history_size (config s) of None \<Rightarrow> 1000 | Some m \<Rightarrow> m)
      in if int (length (alert_history s)) > max_history
         then s\<lparr>alert_history := py_slice_from (- max_history) (alert_history s)\<rparr>
         else s)"


section \<open>Creating alerts\<close>

text \<open>\<open>str\<close> of a non-negative integer.\<close>

definition digit_char :: "nat \<Rightarrow> char" where
  "digit_char d = char_of (48 + d)"

function str_nat :: "nat \<Rightarrow> string" where
  "str_nat n = (if n < 10 then [digit_char n] else str_nat (n div 10) @ [digit_char (n mod 10)])"
  by pat_completeness auto
termination
  by (relation "measure (\<lambda>n. n)") auto

text \<open>
  Lines 354 to 360 of \<open>create_alert\<close>: the explicit list, else the configured default
  for the priority, else every registered channel; then only registered channels.
\<close>

definition available_channels ::
  "world \<Rightarrow> AlertManager \<Rightarrow> AlertPriority \<Rightarrow> string list option \<Rightarrow> string list" where
  "available_channels w s p chans =
     (let chs = (case chans of
                   Some cs \<Rightarrow> cs
                 | None \<Rightarrow>
                    (case (case default_channels (config s) of None \<Rightarrow> Map.empty | Some d \<Rightarrow> d)
                            (priority_value w p) of
                       Some cs \<Rightarrow> cs
                     | None \<Rightarrow> map fst (registry s)))
      in filter (\<lambda>ch. map_of (registry s) ch \<noteq> None) chs)"

text \<open>\<open>f"alert_{datetime.now().strftime('%Y%m%d_%H%M%S')}_{hash(title) % 10000}"\<close>\<close>

definition make_alert_id :: "world \<Rightarrow> int \<Rightarrow> string \<Rightarrow> string" where
  "make_alert_id w now t = ''alert_'' @ strftime w now @ ''_'' @ str_nat (nat (py_hash w t mod 10000))"

definition create_alert ::
  "world \<Rightarrow> AlertManager \<Rightarrow> string \<Rightarrow> string \<Rightarrow> string \<Rightarrow> AlertPriority \<Rightarrow>
     string list option \<Rightarrow> metadata option \<Rightarrow> string option \<times> AlertManager" where
  "create_alert w s t m sy p chans md =
     (let available = available_channels w s p chans
      in if available = [] then (None, s\<lparr>log := log s @ [(WARNING, t)]\<rparr>)
         else
           (let (now1, s1) = datetime_now w s;
                aid = make_alert_id w now1 t;
                (now2, s2) = datetime_now w s1;
                alert = \<lparr>alert_id = aid, title = t, message = m, priority = p, symbol = sy,
                         timestamp = now2, channels = available,
                         metadata = (case md of None \<Rightarrow> [] | Some x \<Rightarrow> x),
                         sent = False, retry_count = 0\<rparr>;
                r = length (heap s2);
                s3 = s2\<lparr>heap := heap s2 @ [alert], alert_queue := alert_queue s2 @ [r]\<rparr>
            in (Some aid, s3\<lparr>log := log s3 @ [(INFO, aid)]\<rparr>)))"

section \<open>Processing an alert\<close>

text \<open>
  The body of the second loop of \<open>_process_alert\<close>: one send is awaited. A raise of
  class \<open>Exception\<close> is caught and logged; for a CRITICAL alert with \<open>retry_count < 3\<close>
  the handler increments the counter of the shared object, sleeps \<open>2 ** retry_count\<close>
  seconds and puts the alert back on the queue. Any other exception of the send, and a
  cancellation during the sleep, leave the function uncaught.
\<close>

definition send_one :: "world \<Rightarrow> ref \<Rightarrow> string \<times> channel \<Rightarrow> AlertManager \<Rightarrow> AlertManager result" where
  "send_one w r task s =
     (let channel_name = fst task;
          alert = heap s ! r;
          earlier = length (filter (\<lambda>e. fst e = channel_name) (send_log s));
          outcome = (snd task) alert earlier;
          s1 = s\<lparr>send_log := send_log s @ [(channel_name, r, outcome)]\<rparr>
      in case outcome of
           SendReturns \<Rightarrow> Returned (s1\<lparr>log := log s1 @ [(INFO, channel_name)]\<rparr>)
         | SendAborts \<Rightarrow> Uncaught s1
         | SendRaises \<Rightarrow>
             (let s2 = s1\<lparr>log := log s1 @ [(ERROR, channel_name)]\<rparr>
              in if priority alert = CRITICAL \<and> retry_count alert < 3
                 then
                   (let alert' = alert\<lparr>retry_count := retry_count alert + 1\<rparr>;
                        s3 = s2\<lparr>heap := (heap s2)[r := alert']\<rparr>;
                        s4 = s3\<lparr>sleep_log := sleep_log s3 @ [2 ^ retry_count alert']\<rparr>
                    in if sleep_cancelled w (length (sleep_log s3)) then Uncaught s4
                       else Returned (s4\<lparr>alert_queue := alert_queue s4 @ [r]\<rparr>))
                 else Returned s2))"

text \<open>
  The sends are awaited one after the other, in the order of the tasks; an uncaught
  exception ends the loop.
\<close>

fun send_loop ::
  "world \<Rightarrow> ref \<Rightarrow> (string \<times> channel) list \<Rightarrow> AlertManager \<Rightarrow> AlertManager result" where
  "send_loop w r [] s = Returned s"
| "send_loop w r (task # rest) s =
     (case send_one w r task s of
        Returned s' \<Rightarrow> send_loop w r rest s'
      | Uncaught s' \<Rightarrow> Uncaught s')"

text \<open>
  The first loop: one task per entry of \<open>alert.channels\<close> that is registered. Calling
  the coroutine function \<open>send_alert\<close> only creates the coroutine; it runs when the
  second loop awaits it.
\<close>

definition send_tasks :: "AlertManager \<Rightarrow> Alert \<Rightarrow> (string \<times> channel) list" where
  "send_tasks s alert =
     List.map_filter (\<lambda>channel_name. map_option (Pair channel_name) (map_of (registry s) channel_name))
       (channels alert)"

text \<open>
  \<open>_process_alert\<close>, run to completion by one worker. Neither its inner nor its outer
  handler catches what \<open>send_loop\<close> leaves uncaught, so the marking, the tracking and
  the history are then skipped. A reference outside the heap cannot arise (references
  are only made by \<open>create_alert\<close>); the state is then unchanged.
\<close>

definition process_alert :: "world \<Rightarrow> AlertManager \<Rightarrow> ref \<Rightarrow> AlertManager result" where
  "process_alert w s r =
     (if length (heap s) \<le> r then Returned s
      else
        (let alert = heap s ! r;
             (ok, s1) = check_rate_limit w s alert
         in if \<not> ok then Returned (s1\<lparr>log := log s1 @ [(DEBUG, alert_id alert)]\<rparr>)
            else
              (let (dup, s2) = is_duplicate w s1 alert
               in if dup then Returned (s2\<lparr>log := log s2 @ [(DEBUG, alert_id alert)]\<rparr>)
                  else
                    (case send_loop w r (send_tasks s2 alert) s2 of
                       Uncaught s3 \<Rightarrow> Uncaught s3
                     | Returned s3 \<Rightarrow>
                         (let s4 = s3\<lparr>heap := (heap s3)[r := (heap s3 ! r)\<lparr>sent := True\<rparr>]\<rparr>;
                              s5 = track_sent_alert w s4 (heap s4 ! r);
                              s6 = s5\<lparr>alert_history := alert_history s5 @ [r]\<rparr>
                          in Returned (cleanup_history s6))))))"

text \<open>
  Names for two intermediate states of \<open>process_alert\<close>: after both admission checks,
  and after the sends.
\<close>

definition admitted_state :: "world \<Rightarrow> AlertManager \<Rightarrow> ref \<Rightarrow> AlertManager" where
  "admitted_state w s r = snd (is_duplicate w (snd (check_rate_limit w s (heap s ! r))) (heap s ! r))"

definition sent_state :: "world \<Rightarrow> AlertManager \<Rightarrow> ref \<Rightarrow> AlertManager result" where
  "sent_state w s r =
     send_loop w r (send_tasks (admitted_state w s r) (heap s ! r)) (admitted_state w s r)"

text \<open>
  One iteration of \<open>_alert_worker\<close>: an empty queue is the timeout branch. The handler
  of the worker is \<open>except Exception\<close> too, so what \<open>process_alert\<close> leaves uncaught
  ends the worker. An alert is processed to completion before the next one is taken;
  the interleaving of several workers at the \<open>await\<close> points is not modelled.
\<close>

definition worker_step :: "world \<Rightarrow> AlertManager \<Rightarrow> AlertManager result" where
  "worker_step w s =
     (if \<not> workers_running s then Returned s
      else (case alert_queue s of
              [] \<Rightarrow> Returned s
            | r # q \<Rightarrow> process_alert w (s\<lparr>alert_queue := q\<rparr>) r))"

fun run_worker :: "nat \<Rightarrow> world \<Rightarrow> AlertManager \<Rightarrow> AlertManager result" where
  "run_worker 0 w s = Returned s"
| "run_worker (Suc n) w s =
     (case worker_step w s of
        Returned s' \<Rightarrow> run_worker n w s'
      | Uncaught s' \<Rightarrow> Uncaught s')"

section \<open>Triggers\<close>

text \<open>
  The body of the loop of \<open>check_triggers\<close>: the \<open>try\<close> wraps both the call of
  \<open>check\<close> and the call of \<open>create_alert\<close>, whose default priority is MEDIUM; a raise of
  class \<open>Exception\<close> in either is caught and logged. A check that is aborted is not
  caught.
\<close>

definition check_one ::
  "world \<Rightarrow> market_data \<Rightarrow> string \<times> trigger \<Rightarrow> AlertManager \<Rightarrow> AlertManager result" where
  "check_one w md entry s =
     (let trigger_name = fst entry;
          s0 = s\<lparr>trigger_log := trigger_log s @ [trigger_name]\<rparr>
      in case (snd entry) md of
           CheckRaises \<Rightarrow> Returned (s0\<lparr>log := log s0 @ [(ERROR, trigger_name)]\<rparr>)
         | CheckAborts \<Rightarrow> Uncaught s0
         | CheckReturns should_trigger data \<Rightarrow>
             if should_trigger
             then (case data of
                     BadKwargs \<Rightarrow> Returned (s0\<lparr>log := log s0 @ [(ERROR, trigger_name)]\<rparr>)
                   | Kwargs t m sy p chans mt \<Rightarrow>
                       Returned (snd (create_alert w s0 t m sy
                                        (case p of None \<Rightarrow> MEDIUM | Some q \<Rightarrow> q) chans mt)))
             else Returned s0)"

text \<open>The loop over \<open>self.triggers\<close>: an uncaught exception ends the pass.\<close>

fun check_triggers_loop ::
  "world \<Rightarrow> market_data \<Rightarrow> (string \<times> trigger) list \<Rightarrow> AlertManager \<Rightarrow> AlertManager result" where
  "check_triggers_loop w md [] s = Returned s"
| "check_triggers_loop w md (entry # rest) s =
     (case check_one w md entry s of
        Returned s' \<Rightarrow> check_triggers_loop w md rest s'
      | Uncaught s' \<Rightarrow> Uncaught s')"

definition check_triggers :: "world \<Rightarrow> AlertManager \<Rightarrow> market_data \<Rightarrow> AlertManager result" where
  "check_triggers w s md = check_triggers_loop w md (triggers s) s"

section \<open>Predicates used in the statements\<close>

text \<open>
  The \<open>try\<close> block of \<open>check_triggers\<close> raises an \<open>Exception\<close> for this trigger:
  \<open>check\<close> raises one, or it fires with a dict that \<open>create_alert\<close> does not accept.
\<close>

definition check_fails :: "market_data \<Rightarrow> string \<times> trigger \<Rightarrow> bool" where
  "check_fails md entry =
     (case (snd entry) md of
        CheckRaises \<Rightarrow> True
      | CheckAborts \<Rightarrow> False
      | CheckReturns should_trigger data \<Rightarrow> should_trigger \<and> data = BadKwargs)"

text \<open>The check of this trigger is aborted by an exception that is not caught.\<close>

definition check_aborts :: "market_data \<Rightarrow> string \<times> trigger \<Rightarrow> bool" where
  "check_aborts md entry = ((snd entry) md = CheckAborts)"

text \<open>
  The triggers that a pass reaches: all of them up to and including the first whose
  check is aborted.
\<close>

fun reached :: "market_data \<Rightarrow> (string \<times> trigger) list \<Rightarrow> (string \<times> trigger) list" where
  "reached md [] = []"
| "reached md (entry # rest) = (if check_aborts md entry then [entry] else entry # reached md rest)"

text \<open>The reference denotes an alert of the heap whose list of channels is not empty.\<close>

definition has_channels :: "Alert list \<Rightarrow> ref \<Rightarrow> bool" where
  "has_channels h r = (r < length h \<and> channels (h ! r) \<noteq> [])"

text \<open>
  What \<open>_check_rate_limit\<close> keeps of a tracker: the timestamps newer than one hour.
\<close>

definition prune :: "int \<Rightarrow> int list \<Rightarrow> int list" where
  "prune now xs = filter (\<lambda>ts. ts > now - hour_us) xs"

text \<open>The number of sends recorded under a key after a given time.\<close>

definition sends_since :: "(string \<rightharpoonup> int list) \<Rightarrow> string \<Rightarrow> int \<Rightarrow> nat" where
  "sends_since tr key t = length (filter (\<lambda>ts. ts > t) (tracker_get tr key))"

text \<open>
  The channel has a limit that is neither absent nor zero for this priority; and such a
  limit is met by the sends of the trailing hour or of the trailing minute.
\<close>

definition has_limit ::
  "world \<Rightarrow> (string \<rightharpoonup> (string \<rightharpoonup> priority_limit)) \<Rightarrow> AlertPriority \<Rightarrow> string \<Rightarrow> bool" where
  "has_limit w rl p channel_name =
     (truthy (max_per_hour (lookup_limit w rl channel_name p)) \<or>
      truthy (max_per_minute (lookup_limit w rl channel_name p)))"

definition limit_hit ::
  "world \<Rightarrow> (string \<rightharpoonup> (string \<rightharpoonup> priority_limit)) \<Rightarrow> (string \<rightharpoonup> int list) \<Rightarrow> int \<Rightarrow>
     AlertPriority \<Rightarrow> string \<Rightarrow> bool" where
  "limit_hit w rl tr now p channel_name =
     (limit_reached (max_per_hour (lookup_limit w rl channel_name p))
        (sends_since tr (tracker_key w channel_name p) (now - hour_us)) \<or>
      limit_reached (max_per_minute (lookup_limit w rl channel_name p))
        (sends_since tr (tracker_key w channel_name p) (now - minute_us)))"


section \<open>Example configurations\<close>

text \<open>
  A world whose clock advances by \<open>10^6\<close> seconds between two readings, far more than any
  window, where \<open>hash\<close> is the length of the string, every time is formatted alike and
  no sleep is cancelled; a manager as \<open>__init__\<close> leaves it, with the given channels
  registered; and channels that always raise an \<open>Exception\<close>, are always aborted, or
  always deliver.
\<close>

definition demo_world :: world where
  "demo_world =
     \<lparr>priority_value = (\<lambda>p. case p of LOW \<Rightarrow> ''low'' | MEDIUM \<Rightarrow> ''medium''
                                 | HIGH \<Rightarrow> ''high'' | CRITICAL \<Rightarrow> ''critical''),
      py_hash = (\<lambda>t. int (length t)),
      strftime = (\<lambda>t. ''20240101_000000''),
      now_at = (\<lambda>n. int n * 1000000000000),
      sleep_cancelled = (\<lambda>n. False)\<rparr>"

definition demo_manager :: "(string \<times> channel) list \<Rightarrow> AlertManager" where
  "demo_manager reg =
     \<lparr>config = \<lparr>max_history_size = None, default_channels = None\<rparr>,
      registry = reg, triggers = [],
      alert_queue = [], alert_history = [], rate_limits = Map.empty,
      sent_alerts_tracker = Map.empty, duplicate_window = 300000000,
      recent_alerts = {}, workers_running = True, heap = [],
      send_log = [], sleep_log = [], trigger_log = [], log = [], clock_reads = 0\<rparr>"

definition always_fails :: channel where
  "always_fails alert n = SendRaises"


definition always_delivers :: channel where
  "always_delivers alert n = SendReturns"

text \<open>A CRITICAL alert for one channel that raises on every send.\<close>

definition retry_state :: AlertManager where
  "retry_state =
     snd (create_alert demo_world (demo_manager [(''telegram'', always_fails)])
            ''Price Spike'' ''BTC +5%'' ''BTCUSDT'' CRITICAL (Some [''telegram'']) None)"

text \<open>A manager configured with \<open>max_history_size = 0\<close>, and one alert on its queue.\<close>

definition unbounded_config :: Config where
  "unbounded_config = \<lparr>max_history_size = Some 0, default_channels = None\<rparr>"

definition unbounded_state :: AlertManager where
  "unbounded_state =
     snd (create_alert demo_world
            ((demo_manager [(''telegram'', always_delivers)])\<lparr>config := unbounded_config\<rparr>)
            ''Price Spike'' ''BTC +5%'' ''BTCUSDT'' MEDIUM None None)"

text \<open>
  A manager that limits HIGH alerts on the channel \<open>sms\<close>, with three HIGH alerts of
  different messages on its queue, and a world whose clock advances by one millisecond
  between two readings.
\<close>

definition limited_manager :: "int option \<Rightarrow> int option \<Rightarrow> AlertManager" where
  "limited_manager mph mpm =
     (demo_manager [(''sms'', always_delivers)])
       \<lparr>rate_limits := [''sms'' \<mapsto> [''high'' \<mapsto> \<lparr>max_per_hour = mph, max_per_minute = mpm\<rparr>]]\<rparr>"

definition burst_state :: "int option \<Rightarrow> int option \<Rightarrow> AlertManager" where
  "burst_state mph mpm =
     snd (create_alert demo_world
       (snd (create_alert demo_world
         (snd (create_alert demo_world (limited_manager mph mpm)
            ''Drawdown'' ''first'' ''BTCUSDT'' HIGH (Some [''sms'']) None))
         ''Drawdown'' ''second'' ''BTCUSDT'' HIGH (Some [''sms'']) None))
       ''Drawdown'' ''third'' ''BTCUSDT'' HIGH (Some [''sms'']) None)"

definition burst_world :: world where
  "burst_world = demo_world\<lparr>now_at := (\<lambda>n. int n * 1000)\<rparr>"


text \<open>The states reached by one worker in these examples.\<close>

definition retry_after_one :: AlertManager where
  "retry_after_one = state_of (run_worker 1 demo_world retry_state)"

definition burst_after_two :: AlertManager where
  "burst_after_two = state_of (run_worker 2 burst_world (burst_state None (Some 2)))"

definition spaced_after_two :: AlertManager where
  "spaced_after_two = state_of (run_worker 2 demo_world (burst_state None (Some 2)))"



text \<open>
  Triggers whose check raises an \<open>Exception\<close>, is aborted, returns without firing, and
  fires; and a manager with given triggers.
\<close>

definition raising_trigger :: trigger where
  "raising_trigger md = CheckRaises"

definition aborted_trigger :: trigger where
  "aborted_trigger md = CheckAborts"

definition quiet_trigger :: trigger where
  "quiet_trigger md = CheckReturns False BadKwargs"

definition firing_trigger :: trigger where
  "firing_trigger md = CheckReturns True (Kwargs ''Price Spike'' ''BTC +5%'' ''BTCUSDT'' None None None)"

definition trigger_state :: "(string \<times> trigger) list \<Rightarrow> AlertManager" where
  "trigger_state ts = (demo_manager [(''telegram'', always_delivers)])\<lparr>triggers := ts\<rparr>"

section \<open>Deduplication never expires\<close>

text \<open>
  C1. The claim: an alert whose key was last recorded more than the duplicate window ago
  is not reported as a duplicate. The code keeps every key: once an alert has been
  checked, a later check of an alert with the same symbol, title and message reports a
  duplicate whatever the two clocks read and whatever the window is.
\<close>

theorem is_duplicate_never_expires:
  "fst (is_duplicate w' (snd (is_duplicate w s a))
          (a\<lparr>alert_id := i, timestamp := ts, sent := b, retry_count := n\<rparr>)) = True"
  by (simp add: is_duplicate_def datetime_now_def alert_hash_def Let_def split: prod.splits)

section \<open>Retries of CRITICAL alerts\<close>

lemma run_worker_idle: "alert_queue s = [] \<Longrightarrow> run_worker n w s = Returned s"
  by (induction n) (simp_all add: worker_step_def)

lemma run_worker_add:
  "run_worker (a + b) w s =
     (case run_worker a w s of Returned s' \<Rightarrow> run_worker b w s' | Uncaught s' \<Rightarrow> Uncaught s')"
  by (induction a arbitrary: s) (simp_all split: result.splits)

text \<open>
  C2. The claim: a CRITICAL alert whose channel always fails is sent 4 times. On the
  code the alert is sent once, put back on the queue once after a sleep of 2 seconds, and
  the retry is then dropped by the duplicate check, because the first pass recorded the
  alert's own key; from the second iteration on the worker is idle.
\<close>

theorem retry_dropped_as_duplicate:
  "returned (run_worker (2 + n) demo_world retry_state) \<and>
   send_log (state_of (run_worker (2 + n) demo_world retry_state)) = [(''telegram'', 0, SendRaises)] \<and>
   sleep_log (state_of (run_worker (2 + n) demo_world retry_state)) = [2] \<and>
   alert_queue (state_of (run_worker (2 + n) demo_world retry_state)) = [] \<and>
   map retry_count (heap (state_of (run_worker (2 + n) demo_world retry_state))) = [1]"
proof -
  have e: "let x = run_worker 2 demo_world retry_state
           in returned x \<and> send_log (state_of x) = [(''telegram'', 0, SendRaises)] \<and>
              sleep_log (state_of x) = [2] \<and> alert_queue (state_of x) = [] \<and>
              map retry_count (heap (state_of x)) = [1]"
    by code_simp
  note e' = e [unfolded Let_def]
  obtain s' where s': "run_worker 2 demo_world retry_state = Returned s'"
    using e' by (cases "run_worker 2 demo_world retry_state") simp_all
  have "alert_queue s' = []" using e' s' by simp
  then have "run_worker (2 + n) demo_world retry_state = run_worker 2 demo_world retry_state"
    using s' by (simp only: run_worker_add) (simp add: run_worker_idle)
  then show ?thesis using e' by (simp only:)
qed

section \<open>Alert identifiers\<close>

lemma of_char_digit_char: "d < 10 \<Longrightarrow> (of_char (digit_char d) :: nat) = 48 + d"
  by (simp add: digit_char_def)

lemma digit_char_neq_underscore: "d < 10 \<Longrightarrow> digit_char d \<noteq> CHR ''_''"
proof
  assume d: "d < 10" and e: "digit_char d = CHR ''_''"
  have "(of_char (digit_char d) :: nat) = of_char (CHR ''_'')" using e by simp
  then show False using d by (simp add: of_char_digit_char)
qed

lemma digit_char_inj: "a < 10 \<Longrightarrow> b < 10 \<Longrightarrow> digit_char a = digit_char b \<Longrightarrow> a = b"
proof -
  assume a: "a < 10" and b: "b < 10" and e: "digit_char a = digit_char b"
  have "(of_char (digit_char a) :: nat) = of_char (digit_char b)" using e by simp
  then show "a = b" using a b by (simp add: of_char_digit_char)
qed

lemma str_nat_small: "n < 10 \<Longrightarrow> str_nat n = [digit_char n]"
  by simp

lemma str_nat_big: "\<not> n < 10 \<Longrightarrow> str_nat n = str_nat (n div 10) @ [digit_char (n mod 10)]"
  by simp

declare str_nat.simps [simp del]

lemma str_nat_not_Nil: "str_nat n \<noteq> []"
  by (cases "n < 10") (simp_all add: str_nat_small str_nat_big)

lemma str_nat_no_underscore: "CHR ''_'' \<notin> set (str_nat n)"
proof (induction n rule: str_nat.induct)
  case (1 n)
  show ?case
  proof (cases "n < 10")
    case True
    then show ?thesis using digit_char_neq_underscore [of n] by (simp add: str_nat_small)
  next
    case False
    then show ?thesis
      using 1 digit_char_neq_underscore [of "n mod 10"] by (simp add: str_nat_big)
  qed
qed

lemma str_nat_inj: "str_nat a = str_nat b \<Longrightarrow> a = b"
proof (induction a arbitrary: b rule: str_nat.induct)
  case (1 a)
  show ?case
  proof (cases "a < 10")
    case True
    note a = this
    show ?thesis
    proof (cases "b < 10")
      case True
      then show ?thesis using a 1(2) digit_char_inj by (simp add: str_nat_small)
    next
      case False
      then show ?thesis using a 1(2) str_nat_not_Nil [of "b div 10"]
        by (simp add: str_nat_small str_nat_big)
    qed
  next
    case False
    note a = this
    show ?thesis
    proof (cases "b < 10")
      case True
      then show ?thesis using a 1(2) str_nat_not_Nil [of "a div 10"]
        by (simp add: str_nat_small str_nat_big)
    next
      case False
      then have "str_nat (a div 10) = str_nat (b div 10)" and d: "digit_char (a mod 10) = digit_char (b mod 10)"
        using a 1(2) by (simp_all add: str_nat_big)
      then have "a div 10 = b div 10" using 1(1) [OF a] by simp
      moreover have "a mod 10 = b mod 10" using d digit_char_inj [of "a mod 10" "b mod 10"] by simp
      ultimately show ?thesis by (metis div_mult_mod_eq)
    qed
  qed
qed

lemma split_at_last_underscore:
  assumes "CHR ''_'' \<notin> set d1" and "CHR ''_'' \<notin> set d2"
    and "a @ CHR ''_'' # d1 = b @ CHR ''_'' # d2"
  shows "a = b \<and> d1 = d2"
proof -
  have "rev d1 @ CHR ''_'' # rev a = rev d2 @ CHR ''_'' # rev b"
    using assms(3) by (metis rev.simps(2) rev_append append_assoc append_Cons append_Nil)
  moreover have "takeWhile (\<lambda>c. c \<noteq> CHR ''_'') (rev d1 @ CHR ''_'' # rev a) = rev d1"
    using assms(1) by (subst takeWhile_append2) auto
  moreover have "takeWhile (\<lambda>c. c \<noteq> CHR ''_'') (rev d2 @ CHR ''_'' # rev b) = rev d2"
    using assms(2) by (subst takeWhile_append2) auto
  ultimately have "rev d1 = rev d2" by simp
  then have "d1 = d2" by simp
  then show ?thesis using assms(3) by simp
qed

lemma make_alert_id_eq_iff:
  "make_alert_id w n1 t1 = make_alert_id w n2 t2 \<longleftrightarrow>
     strftime w n1 = strftime w n2 \<and> py_hash w t1 mod 10000 = py_hash w t2 mod 10000"
proof
  assume "make_alert_id w n1 t1 = make_alert_id w n2 t2"
  then have "strftime w n1 @ CHR ''_'' # str_nat (nat (py_hash w t1 mod 10000))
           = strftime w n2 @ CHR ''_'' # str_nat (nat (py_hash w t2 mod 10000))"
    by (simp add: make_alert_id_def)
  then have "strftime w n1 = strftime w n2"
    and "str_nat (nat (py_hash w t1 mod 10000)) = str_nat (nat (py_hash w t2 mod 10000))"
    using split_at_last_underscore [OF str_nat_no_underscore str_nat_no_underscore] by blast+
  moreover from this(2) have "nat (py_hash w t1 mod 10000) = nat (py_hash w t2 mod 10000)"
    by (rule str_nat_inj)
  ultimately show "strftime w n1 = strftime w n2 \<and> py_hash w t1 mod 10000 = py_hash w t2 mod 10000"
    by simp
next
  assume "strftime w n1 = strftime w n2 \<and> py_hash w t1 mod 10000 = py_hash w t2 mod 10000"
  then show "make_alert_id w n1 t1 = make_alert_id w n2 t2"
    by (simp add: make_alert_id_def)
qed

lemma create_alert_fst:
  "fst (create_alert w s t m sy p chans md) =
     (if available_channels w s p chans = [] then None
      else Some (make_alert_id w (now_at w (clock_reads s)) t))"
  by (simp add: create_alert_def datetime_now_def Let_def split: prod.splits)

text \<open>
  C3, as amended. The claim: two calls with distinct titles never return the same id.
  The id is \<open>alert_\<close>, the creation time formatted to the second, and the hash of the
  title modulo 10000. Two calls that both enqueue return the same id exactly when their
  formatted creation times agree and the hashes of their titles agree modulo 10000.
\<close>

theorem create_alert_ids_equal_iff:
  assumes "available_channels w s1 p1 c1 \<noteq> []" and "available_channels w s2 p2 c2 \<noteq> []"
  shows "fst (create_alert w s1 t1 m1 y1 p1 c1 d1) = fst (create_alert w s2 t2 m2 y2 p2 c2 d2) \<longleftrightarrow>
           strftime w (now_at w (clock_reads s1)) = strftime w (now_at w (clock_reads s2)) \<and>
           py_hash w t1 mod 10000 = py_hash w t2 mod 10000"
  using assms by (simp add: create_alert_fst make_alert_id_eq_iff)

lemma demo_available:
  "available_channels (demo_world\<lparr>py_hash := h\<rparr>) (demo_manager [(''telegram'', always_fails)]) MEDIUM None = [''telegram'']"
  by (simp add: available_channels_def demo_world_def demo_manager_def)

text \<open>
  Counterexample to C3: whatever function \<open>hash\<close> is, two distinct titles created
  within the same second receive the same id (10001 titles share 10000 residues).
\<close>

theorem create_alert_id_collision:
  "\<forall>h. \<exists>t1 t2. t1 \<noteq> t2 \<and>
     fst (create_alert (demo_world\<lparr>py_hash := h\<rparr>) (demo_manager [(''telegram'', always_fails)])
            t1 ''m'' ''BTCUSDT'' MEDIUM None None) \<noteq> None \<and>
     fst (create_alert (demo_world\<lparr>py_hash := h\<rparr>) (demo_manager [(''telegram'', always_fails)])
            t1 ''m'' ''BTCUSDT'' MEDIUM None None) =
     fst (create_alert (demo_world\<lparr>py_hash := h\<rparr>) (demo_manager [(''telegram'', always_fails)])
            t2 ''m'' ''BTCUSDT'' MEDIUM None None)"
proof
  fix h :: "string \<Rightarrow> int"
  define f where "f = (\<lambda>n::nat. h (replicate n CHR ''a'') mod 10000)"
  have "f ` {0..10000} \<subseteq> {0..<10000}" by (auto simp: f_def)
  then have "card (f ` {0..10000}) \<le> card {0..<10000::int}"
    by (intro card_mono) simp_all
  then have "card (f ` {0..10000}) < card {0..10000::nat}" by simp
  then have "\<not> inj_on f {0..10000}" using pigeonhole by blast
  then obtain i j where ij: "i \<noteq> j" "f i = f j" by (auto simp: inj_on_def)
  let ?t1 = "replicate i CHR ''a''" and ?t2 = "replicate j CHR ''a''"
  have "?t1 \<noteq> ?t2" using ij(1) by (metis length_replicate)
  moreover have "h ?t1 mod 10000 = h ?t2 mod 10000" using ij(2) by (simp add: f_def)
  ultimately show "\<exists>t1 t2. t1 \<noteq> t2 \<and>
     fst (create_alert (demo_world\<lparr>py_hash := h\<rparr>) (demo_manager [(''telegram'', always_fails)])
            t1 ''m'' ''BTCUSDT'' MEDIUM None None) \<noteq> None \<and>
     fst (create_alert (demo_world\<lparr>py_hash := h\<rparr>) (demo_manager [(''telegram'', always_fails)])
            t1 ''m'' ''BTCUSDT'' MEDIUM None None) =
     fst (create_alert (demo_world\<lparr>py_hash := h\<rparr>) (demo_manager [(''telegram'', always_fails)])
            t2 ''m'' ''BTCUSDT'' MEDIUM None None)"
    by (intro exI [of _ ?t1] exI [of _ ?t2]) (simp add: create_alert_fst demo_available make_alert_id_def)
qed

text \<open>Two different alerts, created in the same second, whose titles have equal hashes.\<close>

theorem create_alert_ids_equal_iff_witness:
  "available_channels demo_world (demo_manager [(''telegram'', always_fails)]) MEDIUM None \<noteq> [] \<and>
   available_channels demo_world (demo_manager [(''telegram'', always_fails)]) HIGH (Some [''telegram'', ''sms'']) \<noteq> [] \<and>
   fst (create_alert demo_world (demo_manager [(''telegram'', always_fails)])
          ''Price Spike'' ''BTC +5%'' ''BTCUSDT'' MEDIUM None None) =
   fst (create_alert demo_world (demo_manager [(''telegram'', always_fails)])
          ''Volume Drop'' ''ETH -3%'' ''ETHUSDT'' HIGH (Some [''telegram'', ''sms'']) None)"
proof -
  have a: "available_channels demo_world (demo_manager [(''telegram'', always_fails)]) MEDIUM None \<noteq> []"
    by (simp add: available_channels_def demo_world_def demo_manager_def)
  have b: "available_channels demo_world (demo_manager [(''telegram'', always_fails)]) HIGH (Some [''telegram'', ''sms'']) \<noteq> []"
    by (simp add: available_channels_def demo_world_def demo_manager_def)
  show ?thesis
    using a b create_alert_ids_equal_iff [OF a b, of "''Price Spike''" "''BTC +5%''" "''BTCUSDT''" None
        "''Volume Drop''" "''ETH -3%''" "''ETHUSDT''" None]
    by (simp add: demo_world_def demo_manager_def)
qed


section \<open>Effects of the steps of \<open>process_alert\<close>\<close>

lemma check_rate_limit_fields:
  "config (snd (check_rate_limit w s a)) = config s"
  "registry (snd (check_rate_limit w s a)) = registry s"
  "triggers (snd (check_rate_limit w s a)) = triggers s"
  "alert_queue (snd (check_rate_limit w s a)) = alert_queue s"
  "alert_history (snd (check_rate_limit w s a)) = alert_history s"
  "rate_limits (snd (check_rate_limit w s a)) = rate_limits s"
  "duplicate_window (snd (check_rate_limit w s a)) = duplicate_window s"
  "recent_alerts (snd (check_rate_limit w s a)) = recent_alerts s"
  "workers_running (snd (check_rate_limit w s a)) = workers_running s"
  "heap (snd (check_rate_limit w s a)) = heap s"
  "send_log (snd (check_rate_limit w s a)) = send_log s"
  "sleep_log (snd (check_rate_limit w s a)) = sleep_log s"
  "trigger_log (snd (check_rate_limit w s a)) = trigger_log s"
  "log (snd (check_rate_limit w s a)) = log s"
  "clock_reads (snd (check_rate_limit w s a)) = Suc (clock_reads s)"
  by (simp_all add: check_rate_limit_def datetime_now_def Let_def split: prod.splits)

lemma is_duplicate_fields:
  "config (snd (is_duplicate w s a)) = config s"
  "registry (snd (is_duplicate w s a)) = registry s"
  "triggers (snd (is_duplicate w s a)) = triggers s"
  "alert_queue (snd (is_duplicate w s a)) = alert_queue s"
  "alert_history (snd (is_duplicate w s a)) = alert_history s"
  "rate_limits (snd (is_duplicate w s a)) = rate_limits s"
  "sent_alerts_tracker (snd (is_duplicate w s a)) = sent_alerts_tracker s"
  "duplicate_window (snd (is_duplicate w s a)) = duplicate_window s"
  "recent_alerts (snd (is_duplicate w s a)) = insert (alert_hash a) (recent_alerts s)"
  "workers_running (snd (is_duplicate w s a)) = workers_running s"
  "heap (snd (is_duplicate w s a)) = heap s"
  "send_log (snd (is_duplicate w s a)) = send_log s"
  "sleep_log (snd (is_duplicate w s a)) = sleep_log s"
  "trigger_log (snd (is_duplicate w s a)) = trigger_log s"
  "log (snd (is_duplicate w s a)) = log s"
  "clock_reads (snd (is_duplicate w s a)) = Suc (clock_reads s)"
  by (auto simp add: is_duplicate_def datetime_now_def Let_def insert_absorb split: prod.splits)

lemma send_one_fields:
  "config (state_of (send_one w r task s)) = config s"
  "registry (state_of (send_one w r task s)) = registry s"
  "triggers (state_of (send_one w r task s)) = triggers s"
  "alert_history (state_of (send_one w r task s)) = alert_history s"
  "rate_limits (state_of (send_one w r task s)) = rate_limits s"
  "sent_alerts_tracker (state_of (send_one w r task s)) = sent_alerts_tracker s"
  "duplicate_window (state_of (send_one w r task s)) = duplicate_window s"
  "recent_alerts (state_of (send_one w r task s)) = recent_alerts s"
  "workers_running (state_of (send_one w r task s)) = workers_running s"
  "trigger_log (state_of (send_one w r task s)) = trigger_log s"
  "clock_reads (state_of (send_one w r task s)) = clock_reads s"
  "length (heap (state_of (send_one w r task s))) = length (heap s)"
  by (simp_all add: send_one_def Let_def split: send_outcome.splits)

lemma send_loop_Cons_state:
  "state_of (send_loop w r (task # rest) s) =
     (if returned (send_one w r task s)
      then state_of (send_loop w r rest (state_of (send_one w r task s)))
      else state_of (send_one w r task s))"
  by (cases "send_one w r task s") simp_all


lemma send_loop_fields:
  "config (state_of (send_loop w r ts s)) = config s"
  "registry (state_of (send_loop w r ts s)) = registry s"
  "triggers (state_of (send_loop w r ts s)) = triggers s"
  "alert_history (state_of (send_loop w r ts s)) = alert_history s"
  "rate_limits (state_of (send_loop w r ts s)) = rate_limits s"
  "sent_alerts_tracker (state_of (send_loop w r ts s)) = sent_alerts_tracker s"
  "duplicate_window (state_of (send_loop w r ts s)) = duplicate_window s"
  "recent_alerts (state_of (send_loop w r ts s)) = recent_alerts s"
  "workers_running (state_of (send_loop w r ts s)) = workers_running s"
  "trigger_log (state_of (send_loop w r ts s)) = trigger_log s"
  "clock_reads (state_of (send_loop w r ts s)) = clock_reads s"
  "length (heap (state_of (send_loop w r ts s))) = length (heap s)"
  by (induction ts arbitrary: s;
      simp add: send_one_fields send_loop_Cons_state del: send_loop.simps(2))+

lemma track_sent_alert_fields:
  "config (track_sent_alert w s a) = config s"
  "registry (track_sent_alert w s a) = registry s"
  "triggers (track_sent_alert w s a) = triggers s"
  "alert_queue (track_sent_alert w s a) = alert_queue s"
  "alert_history (track_sent_alert w s a) = alert_history s"
  "rate_limits (track_sent_alert w s a) = rate_limits s"
  "duplicate_window (track_sent_alert w s a) = duplicate_window s"
  "recent_alerts (track_sent_alert w s a) = recent_alerts s"
  "workers_running (track_sent_alert w s a) = workers_running s"
  "heap (track_sent_alert w s a) = heap s"
  "send_log (track_sent_alert w s a) = send_log s"
  "sleep_log (track_sent_alert w s a) = sleep_log s"
  "trigger_log (track_sent_alert w s a) = trigger_log s"
  "log (track_sent_alert w s a) = log s"
  "clock_reads (track_sent_alert w s a) = Suc (clock_reads s)"
  "sent_alerts_tracker (track_sent_alert w s a) =
     track_loop w (now_at w (clock_reads s)) (priority a) (channels a) (sent_alerts_tracker s)"
  by (simp_all add: track_sent_alert_def datetime_now_def Let_def split: prod.splits)

lemma cleanup_history_fields:
  "config (cleanup_history s) = config s"
  "registry (cleanup_history s) = registry s"
  "triggers (cleanup_history s) = triggers s"
  "alert_queue (cleanup_history s) = alert_queue s"
  "rate_limits (cleanup_history s) = rate_limits s"
  "sent_alerts_tracker (cleanup_history s) = sent_alerts_tracker s"
  "duplicate_window (cleanup_history s) = duplicate_window s"
  "recent_alerts (cleanup_history s) = recent_alerts s"
  "workers_running (cleanup_history s) = workers_running s"
  "heap (cleanup_history s) = heap s"
  "send_log (cleanup_history s) = send_log s"
  "sleep_log (cleanup_history s) = sleep_log s"
  "trigger_log (cleanup_history s) = trigger_log s"
  "log (cleanup_history s) = log s"
  "clock_reads (cleanup_history s) = clock_reads s"
  by (simp_all add: cleanup_history_def Let_def)

text \<open>The outcomes of \<open>process_alert\<close> on an alert of the heap.\<close>

lemma process_alert_rate_limited:
  assumes "r < length (heap s)" and "\<not> fst (check_rate_limit w s (heap s ! r))"
  shows "process_alert w s r =
           Returned ((snd (check_rate_limit w s (heap s ! r)))
                       \<lparr>log := log s @ [(DEBUG, alert_id (heap s ! r))]\<rparr>)"
  using assms
  by (simp add: process_alert_def Let_def case_prod_beta check_rate_limit_fields)

lemma process_alert_duplicate:
  assumes "r < length (heap s)" and "fst (check_rate_limit w s (heap s ! r))"
    and "fst (is_duplicate w (snd (check_rate_limit w s (heap s ! r))) (heap s ! r))"
  shows "process_alert w s r =
           Returned ((snd (is_duplicate w (snd (check_rate_limit w s (heap s ! r))) (heap s ! r)))
                       \<lparr>log := log s @ [(DEBUG, alert_id (heap s ! r))]\<rparr>)"
  using assms
  by (simp add: process_alert_def Let_def case_prod_beta check_rate_limit_fields is_duplicate_fields)

lemma process_alert_admitted:
  assumes "r < length (heap s)" and "fst (check_rate_limit w s (heap s ! r))"
    and "\<not> fst (is_duplicate w (snd (check_rate_limit w s (heap s ! r))) (heap s ! r))"
    and "returned (sent_state w s r)"
  shows "process_alert w s r =
           Returned (cleanup_history
             ((track_sent_alert w
                ((state_of (sent_state w s r))
                   \<lparr>heap := (heap (state_of (sent_state w s r)))
                              [r := (heap (state_of (sent_state w s r)) ! r)\<lparr>sent := True\<rparr>]\<rparr>)
                ((heap (state_of (sent_state w s r)) ! r)\<lparr>sent := True\<rparr>))
              \<lparr>alert_history := alert_history s @ [r]\<rparr>))"
proof -
  obtain t where t: "sent_state w s r = Returned t"
    using assms(4) by (cases "sent_state w s r") simp_all
  have h: "alert_history t = alert_history s" "length (heap t) = length (heap s)"
    using send_loop_fields(4,12) [of w r "send_tasks (admitted_state w s r) (heap s ! r)" "admitted_state w s r"] t
    by (simp_all add: sent_state_def admitted_state_def is_duplicate_fields check_rate_limit_fields)
  show ?thesis
    using assms(1-3) t h
    by (simp add: process_alert_def Let_def case_prod_beta check_rate_limit_fields is_duplicate_fields
        track_sent_alert_fields sent_state_def admitted_state_def)
qed

lemma process_alert_aborted:
  assumes "r < length (heap s)" and "fst (check_rate_limit w s (heap s ! r))"
    and "\<not> fst (is_duplicate w (snd (check_rate_limit w s (heap s ! r))) (heap s ! r))"
    and "\<not> returned (sent_state w s r)"
  shows "process_alert w s r = Uncaught (state_of (sent_state w s r))"
proof -
  obtain t where t: "sent_state w s r = Uncaught t"
    using assms(4) by (cases "sent_state w s r") simp_all
  show ?thesis
    using assms(1-3) t
    by (simp add: process_alert_def Let_def case_prod_beta check_rate_limit_fields is_duplicate_fields
        sent_state_def admitted_state_def)
qed

lemma send_one_heap:
  "r < length (heap s) \<Longrightarrow>
     heap (state_of (send_one w r task s)) =
       (heap s)[r := (heap s ! r)\<lparr>retry_count := retry_count (heap (state_of (send_one w r task s)) ! r)\<rparr>]"
  by (simp add: send_one_def Let_def list_update_same_conv split: send_outcome.splits)

lemma send_loop_heap:
  "r < length (heap s) \<Longrightarrow>
     heap (state_of (send_loop w r ts s)) =
       (heap s)[r := (heap s ! r)\<lparr>retry_count := retry_count (heap (state_of (send_loop w r ts s)) ! r)\<rparr>]"
proof (induction ts arbitrary: s)
  case Nil
  then show ?case by (simp add: list_update_same_conv)
next
  case (Cons task rest)
  let ?s1 = "state_of (send_one w r task s)"
  have l: "r < length (heap ?s1)" using Cons.prems by (simp add: send_one_fields)
  show ?case
  proof (cases "returned (send_one w r task s)")
    case False
    then show ?thesis using send_one_heap [OF Cons.prems] by (simp only: send_loop_Cons_state if_False)
  next
    case True
    have "heap (state_of (send_loop w r rest ?s1)) =
          (heap ?s1)[r := (heap ?s1 ! r)\<lparr>retry_count := retry_count (heap (state_of (send_loop w r rest ?s1)) ! r)\<rparr>]"
      by (rule Cons.IH [OF l])
    also have "\<dots> = (heap s)[r := (heap s ! r)\<lparr>retry_count := retry_count (heap (state_of (send_loop w r rest ?s1)) ! r)\<rparr>]"
      using Cons.prems by (subst (1 2) send_one_heap [OF Cons.prems]) simp
    finally show ?thesis using True by (simp only: send_loop_Cons_state if_True)
  qed
qed



lemma send_one_queue:
  "alert_queue (state_of (send_one w r task s)) = alert_queue s \<or>
   alert_queue (state_of (send_one w r task s)) = alert_queue s @ [r]"
  by (simp add: send_one_def Let_def split: send_outcome.splits)

lemma send_loop_queue: "\<exists>k. alert_queue (state_of (send_loop w r ts s)) = alert_queue s @ replicate k r"
proof (induction ts arbitrary: s)
  case Nil
  show ?case by (rule exI [of _ 0]) simp
next
  case (Cons task rest)
  let ?s1 = "state_of (send_one w r task s)"
  obtain k where k: "alert_queue (state_of (send_loop w r rest ?s1)) = alert_queue ?s1 @ replicate k r"
    using Cons.IH by blast
  have "\<exists>j. alert_queue ?s1 = alert_queue s @ replicate j r"
  proof -
    from send_one_queue [of w r task s] show ?thesis
    proof
      assume "alert_queue ?s1 = alert_queue s"
      then have "alert_queue ?s1 = alert_queue s @ replicate 0 r" by simp
      then show ?thesis by blast
    next
      assume "alert_queue ?s1 = alert_queue s @ [r]"
      then have "alert_queue ?s1 = alert_queue s @ replicate 1 r" by simp
      then show ?thesis by blast
    qed
  qed
  then obtain j where j: "alert_queue ?s1 = alert_queue s @ replicate j r" by blast
  show ?case
  proof (cases "returned (send_one w r task s)")
    case False
    then show ?thesis using j by (simp only: send_loop_Cons_state if_False) blast
  next
    case True
    have "alert_queue (state_of (send_loop w r rest ?s1)) = alert_queue s @ replicate (j + k) r"
      using k j by (simp add: replicate_add)
    then show ?thesis using True by (simp only: send_loop_Cons_state if_True) blast
  qed
qed



text \<open>
  C6. An alert that the rate-limit check rejects, or that passes it and is then reported
  as a duplicate, is dropped before any send: the function returns, no channel is called,
  nothing sleeps, the alert is neither put back on the queue nor added to the history, no
  object changes, and the only log entry is at level DEBUG. Sends happen only in the
  remaining branch, after both checks.
\<close>

theorem rejected_alert_is_dropped:
  assumes "r < length (heap s)"
    and "\<not> fst (check_rate_limit w s (heap s ! r)) \<or>
         fst (is_duplicate w (snd (check_rate_limit w s (heap s ! r))) (heap s ! r))"
  shows "returned (process_alert w s r) \<and>
         send_log (state_of (process_alert w s r)) = send_log s \<and>
         sleep_log (state_of (process_alert w s r)) = sleep_log s \<and>
         alert_queue (state_of (process_alert w s r)) = alert_queue s \<and>
         alert_history (state_of (process_alert w s r)) = alert_history s \<and>
         heap (state_of (process_alert w s r)) = heap s \<and>
         log (state_of (process_alert w s r)) = log s @ [(DEBUG, alert_id (heap s ! r))]"
proof (cases "fst (check_rate_limit w s (heap s ! r))")
  case False
  show ?thesis
    by (simp add: process_alert_rate_limited [OF assms(1) False] check_rate_limit_fields)
next
  case True
  with assms(2) have d: "fst (is_duplicate w (snd (check_rate_limit w s (heap s ! r))) (heap s ! r))"
    by simp
  show ?thesis
    by (simp add: process_alert_duplicate [OF assms(1) True d] check_rate_limit_fields is_duplicate_fields)
qed

lemma tracker_get_upd:
  "tracker_get (tr(k \<mapsto> v)) key = (if key = k then v else tracker_get tr key)"
  by (simp add: tracker_get_def)


lemma py_slice_from_zero: "py_slice_from 0 xs = xs"
  by (simp add: py_slice_from_def)

lemma py_slice_from_neg:
  "0 < m \<Longrightarrow> m < int (length xs) \<Longrightarrow> py_slice_from (- m) xs = drop (length xs - nat m) xs"
  by (simp add: py_slice_from_def Let_def nat_diff_distrib' max_def)

lemma cleanup_history_alert_history:
  "alert_history (cleanup_history s) =
     (let m = (case max_history_size (config s) of None \<Rightarrow> 1000 | Some m \<Rightarrow> m)
      in if m < int (length (alert_history s)) then py_slice_from (- m) (alert_history s)
         else alert_history s)"
  by (simp add: cleanup_history_def Let_def)



lemma admitted_state_fields:
  "heap (admitted_state w s r) = heap s"
  "alert_queue (admitted_state w s r) = alert_queue s"
  "sleep_log (admitted_state w s r) = sleep_log s"
  "send_log (admitted_state w s r) = send_log s"
  "registry (admitted_state w s r) = registry s"
  "alert_history (admitted_state w s r) = alert_history s"
  "config (admitted_state w s r) = config s"
  "sent_alerts_tracker (admitted_state w s r) = sent_alerts_tracker (snd (check_rate_limit w s (heap s ! r)))"
  "clock_reads (admitted_state w s r) = Suc (Suc (clock_reads s))"
  by (simp_all add: admitted_state_def is_duplicate_fields check_rate_limit_fields)

lemma sent_state_fields:
  "config (state_of (sent_state w s r)) = config s"
  "alert_history (state_of (sent_state w s r)) = alert_history s"
  "sent_alerts_tracker (state_of (sent_state w s r)) =
     sent_alerts_tracker (snd (check_rate_limit w s (heap s ! r)))"
  "clock_reads (state_of (sent_state w s r)) = Suc (Suc (clock_reads s))"
  "length (heap (state_of (sent_state w s r))) = length (heap s)"
  by (simp_all add: sent_state_def send_loop_fields admitted_state_fields)

lemma sent_state_heap:
  assumes "r < length (heap s)"
  shows "heap (state_of (sent_state w s r)) =
           (heap s)[r := (heap s ! r)\<lparr>retry_count := retry_count (heap (state_of (sent_state w s r)) ! r)\<rparr>]"
proof -
  have l: "r < length (heap (admitted_state w s r))"
    using assms by (simp add: admitted_state_fields)
  show ?thesis
    unfolding sent_state_def
    by (subst send_loop_heap [OF l]) (simp add: admitted_state_fields)
qed

lemma sent_state_alert:
  assumes "r < length (heap s)"
  shows "heap (state_of (sent_state w s r)) ! r =
           (heap s ! r)\<lparr>retry_count := retry_count (heap (state_of (sent_state w s r)) ! r)\<rparr>"
  by (subst sent_state_heap [OF assms]) (use assms in simp)


lemma process_alert_heap:
  assumes "r < length (heap s)" and "fst (check_rate_limit w s (heap s ! r))"
    and "\<not> fst (is_duplicate w (snd (check_rate_limit w s (heap s ! r))) (heap s ! r))"
    and "returned (sent_state w s r)"
  shows "heap (state_of (process_alert w s r)) =
           (heap (state_of (sent_state w s r)))
             [r := (heap (state_of (sent_state w s r)) ! r)\<lparr>sent := True\<rparr>]"
    and "alert_queue (state_of (process_alert w s r)) = alert_queue (state_of (sent_state w s r))"
    and "sleep_log (state_of (process_alert w s r)) = sleep_log (state_of (sent_state w s r))"
    and "send_log (state_of (process_alert w s r)) = send_log (state_of (sent_state w s r))"
    and "alert_history (state_of (process_alert w s r)) =
           alert_history (cleanup_history (s\<lparr>alert_history := alert_history s @ [r]\<rparr>))"
    and "sent_alerts_tracker (state_of (process_alert w s r)) =
           track_loop w (now_at w (Suc (Suc (clock_reads s)))) (priority (heap s ! r))
             (channels (heap s ! r)) (sent_alerts_tracker (snd (check_rate_limit w s (heap s ! r))))"
proof -
  note pa = process_alert_admitted [OF assms]
  have a: "heap (state_of (sent_state w s r)) ! r =
             (heap s ! r)\<lparr>retry_count := retry_count (heap (state_of (sent_state w s r)) ! r)\<rparr>"
    by (rule sent_state_alert [OF assms(1)])
  have pc: "priority (heap (state_of (sent_state w s r)) ! r) = priority (heap s ! r)"
    "channels (heap (state_of (sent_state w s r)) ! r) = channels (heap s ! r)"
    by (subst a, simp)+
  show "heap (state_of (process_alert w s r)) =
           (heap (state_of (sent_state w s r)))
             [r := (heap (state_of (sent_state w s r)) ! r)\<lparr>sent := True\<rparr>]"
    and "alert_queue (state_of (process_alert w s r)) = alert_queue (state_of (sent_state w s r))"
    and "sleep_log (state_of (process_alert w s r)) = sleep_log (state_of (sent_state w s r))"
    and "send_log (state_of (process_alert w s r)) = send_log (state_of (sent_state w s r))"
    by (simp_all add: pa cleanup_history_fields track_sent_alert_fields)
  show "alert_history (state_of (process_alert w s r)) =
           alert_history (cleanup_history (s\<lparr>alert_history := alert_history s @ [r]\<rparr>))"
    by (simp add: pa cleanup_history_alert_history track_sent_alert_fields sent_state_fields Let_def)
  show "sent_alerts_tracker (state_of (process_alert w s r)) =
           track_loop w (now_at w (Suc (Suc (clock_reads s)))) (priority (heap s ! r))
             (channels (heap s ! r)) (sent_alerts_tracker (snd (check_rate_limit w s (heap s ! r))))"
    by (simp add: pa cleanup_history_fields track_sent_alert_fields sent_state_fields pc)
qed




section \<open>No delivery ledger\<close>


section \<open>Creating alerts without channels\<close>

lemma create_alert_fields:
  "config (snd (create_alert w s t m sy p chans md)) = config s"
  "registry (snd (create_alert w s t m sy p chans md)) = registry s"
  "triggers (snd (create_alert w s t m sy p chans md)) = triggers s"
  "alert_history (snd (create_alert w s t m sy p chans md)) = alert_history s"
  "rate_limits (snd (create_alert w s t m sy p chans md)) = rate_limits s"
  "sent_alerts_tracker (snd (create_alert w s t m sy p chans md)) = sent_alerts_tracker s"
  "duplicate_window (snd (create_alert w s t m sy p chans md)) = duplicate_window s"
  "recent_alerts (snd (create_alert w s t m sy p chans md)) = recent_alerts s"
  "workers_running (snd (create_alert w s t m sy p chans md)) = workers_running s"
  "send_log (snd (create_alert w s t m sy p chans md)) = send_log s"
  "sleep_log (snd (create_alert w s t m sy p chans md)) = sleep_log s"
  "trigger_log (snd (create_alert w s t m sy p chans md)) = trigger_log s"
  "filter (\<lambda>e. fst e = ERROR) (log (snd (create_alert w s t m sy p chans md))) =
     filter (\<lambda>e. fst e = ERROR) (log s)"
  by (simp_all add: create_alert_def datetime_now_def Let_def)

lemma create_alert_empty:
  assumes "available_channels w s p chans = []"
  shows "create_alert w s t m sy p chans md = (None, s\<lparr>log := log s @ [(WARNING, t)]\<rparr>)"
  using assms by (simp add: create_alert_def)

lemma create_alert_enqueued:
  assumes "available_channels w s p chans \<noteq> []"
  shows "alert_queue (snd (create_alert w s t m sy p chans md)) = alert_queue s @ [length (heap s)]"
    and "\<exists>a. heap (snd (create_alert w s t m sy p chans md)) = heap s @ [a] \<and>
             channels a = available_channels w s p chans"
  using assms by (simp_all add: create_alert_def datetime_now_def Let_def)

lemma has_channels_append: "has_channels h r \<Longrightarrow> has_channels (h @ [a]) r"
  by (simp add: has_channels_def nth_append)

lemma has_channels_update:
  "channels a = channels (h ! r) \<Longrightarrow> has_channels (h[r := a]) x = has_channels h x"
  by (cases "x = r") (auto simp add: has_channels_def)

lemma sent_state_has_channels:
  assumes "r < length (heap s)"
  shows "has_channels (heap (state_of (sent_state w s r))) = has_channels (heap s)"
  by (subst sent_state_heap [OF assms], rule ext) (simp add: has_channels_update)

lemma sent_state_queue:
  "\<exists>k. alert_queue (state_of (sent_state w s r)) = alert_queue s @ replicate k r"
  using send_loop_queue [of w r "send_tasks (admitted_state w s r) (heap s ! r)" "admitted_state w s r"]
  by (simp add: sent_state_def admitted_state_fields)

lemma process_alert_rejected_frame:
  assumes "r < length (heap s)"
    and "\<not> fst (check_rate_limit w s (heap s ! r)) \<or>
         fst (is_duplicate w (snd (check_rate_limit w s (heap s ! r))) (heap s ! r))"
  shows "heap (state_of (process_alert w s r)) = heap s \<and>
         alert_queue (state_of (process_alert w s r)) = alert_queue s"
proof (cases "fst (check_rate_limit w s (heap s ! r))")
  case False
  show ?thesis
    by (simp add: process_alert_rate_limited [OF assms(1) False] check_rate_limit_fields)
next
  case True
  with assms(2) have d: "fst (is_duplicate w (snd (check_rate_limit w s (heap s ! r))) (heap s ! r))"
    by simp
  show ?thesis
    by (simp add: process_alert_duplicate [OF assms(1) True d] check_rate_limit_fields is_duplicate_fields)
qed

lemma process_alert_keeps_channels:
  assumes q: "list_all (has_channels (heap s)) (alert_queue s)" and r: "has_channels (heap s) r"
  shows "list_all (has_channels (heap (state_of (process_alert w s r))))
           (alert_queue (state_of (process_alert w s r)))"
proof -
  have l: "r < length (heap s)" using r by (simp add: has_channels_def)
  show ?thesis
  proof (cases "\<not> fst (check_rate_limit w s (heap s ! r)) \<or>
         fst (is_duplicate w (snd (check_rate_limit w s (heap s ! r))) (heap s ! r))")
    case True
    then show ?thesis using q process_alert_rejected_frame [OF l True] by simp
  next
    case False
    then have a: "fst (check_rate_limit w s (heap s ! r))"
      "\<not> fst (is_duplicate w (snd (check_rate_limit w s (heap s ! r))) (heap s ! r))" by blast+
    obtain k where k: "alert_queue (state_of (sent_state w s r)) = alert_queue s @ replicate k r"
      using sent_state_queue by blast
    have rep: "list_all (has_channels (heap s)) (replicate k r)"
      using r by (simp add: list_all_iff)
    show ?thesis
    proof (cases "returned (sent_state w s r)")
      case True
      note ph = process_alert_heap [OF l a True]
      have "has_channels (heap (state_of (process_alert w s r))) x = has_channels (heap s) x" for x
      proof -
        have "has_channels (heap (state_of (process_alert w s r))) x =
              has_channels (heap (state_of (sent_state w s r))) x"
          unfolding ph(1) by (rule has_channels_update) simp
        then show ?thesis by (simp only: sent_state_has_channels [OF l])
      qed
      then have e: "has_channels (heap (state_of (process_alert w s r))) = has_channels (heap s)"
        by (rule ext)
      show ?thesis using q rep by (simp add: e ph(2) k)
    next
      case False
      show ?thesis
        using q rep
        by (simp add: process_alert_aborted [OF l a False] sent_state_has_channels [OF l] k)
    qed
  qed
qed

lemma worker_step_keeps_channels:
  assumes "list_all (has_channels (heap s)) (alert_queue s)"
  shows "list_all (has_channels (heap (state_of (worker_step w s))))
           (alert_queue (state_of (worker_step w s)))"
proof (cases "workers_running s")
  case False
  then show ?thesis using assms by (simp add: worker_step_def)
next
  case True
  show ?thesis
  proof (cases "alert_queue s")
    case Nil
    then show ?thesis using assms True by (simp add: worker_step_def)
  next
    case (Cons r q)
    have "list_all (has_channels (heap (s\<lparr>alert_queue := q\<rparr>))) (alert_queue (s\<lparr>alert_queue := q\<rparr>))"
      and "has_channels (heap (s\<lparr>alert_queue := q\<rparr>)) r"
      using assms Cons by simp_all
    from process_alert_keeps_channels [OF this]
    show ?thesis using True Cons by (simp add: worker_step_def)
  qed
qed

text \<open>
  C5. When no requested channel is registered, \<open>create_alert\<close> returns \<open>None\<close> and
  leaves the queue and the heap as they were. If each alert on the queue has a non-empty
  list of channels, this is still so after any call of \<open>create_alert\<close> and after any
  iteration of a worker (which may put an alert back for a retry, and may be ended by an
  uncaught exception): an alert without channels is never enqueued.
\<close>

theorem create_alert_without_channels:
  "(available_channels w s p chans = [] \<longrightarrow>
      fst (create_alert w s t m sy p chans md) = None \<and>
      alert_queue (snd (create_alert w s t m sy p chans md)) = alert_queue s \<and>
      heap (snd (create_alert w s t m sy p chans md)) = heap s) \<and>
   (list_all (has_channels (heap s)) (alert_queue s) \<longrightarrow>
      list_all (has_channels (heap (snd (create_alert w s t m sy p chans md))))
        (alert_queue (snd (create_alert w s t m sy p chans md))) \<and>
      list_all (has_channels (heap (state_of (worker_step w s))))
        (alert_queue (state_of (worker_step w s))))"
proof (cases "available_channels w s p chans = []")
  case True
  then show ?thesis using worker_step_keeps_channels [of s w] by (simp add: create_alert_empty)
next
  case False
  obtain a where a: "heap (snd (create_alert w s t m sy p chans md)) = heap s @ [a]"
    "channels a = available_channels w s p chans"
    using create_alert_enqueued(2) [OF False] by blast
  have "has_channels (heap s @ [a]) (length (heap s))"
    using a(2) False by (simp add: has_channels_def)
  moreover have "list_all (has_channels (heap s)) (alert_queue s) \<Longrightarrow>
                 list_all (has_channels (heap s @ [a])) (alert_queue s)"
    by (induction "alert_queue s") (auto simp: list_all_iff has_channels_append)
  ultimately show ?thesis
    using False worker_step_keeps_channels [of s w]
    by (simp add: create_alert_enqueued(1) [OF False] a(1))
qed

section \<open>Trigger failures\<close>

lemma check_one_fields:
  "triggers (state_of (check_one w md entry s)) = triggers s"
  "trigger_log (state_of (check_one w md entry s)) = trigger_log s @ [fst entry]"
  "filter (\<lambda>e. fst e = ERROR) (log (state_of (check_one w md entry s))) =
     filter (\<lambda>e. fst e = ERROR) (log s) @ (if check_fails md entry then [(ERROR, fst entry)] else [])"
  "returned (check_one w md entry s) \<longleftrightarrow> \<not> check_aborts md entry"
  by (simp_all add: check_one_def check_fails_def check_aborts_def Let_def create_alert_fields
      split: check_result.splits alert_data.splits)

lemma check_triggers_loop_Cons_state:
  "state_of (check_triggers_loop w md (entry # rest) s) =
     (if check_aborts md entry then state_of (check_one w md entry s)
      else state_of (check_triggers_loop w md rest (state_of (check_one w md entry s))))"
  using check_one_fields(4) [of w md entry s]
  by (cases "check_one w md entry s") simp_all

lemma check_triggers_loop_Cons_returned:
  "returned (check_triggers_loop w md (entry # rest) s) \<longleftrightarrow>
     \<not> check_aborts md entry \<and>
     returned (check_triggers_loop w md rest (state_of (check_one w md entry s)))"
  using check_one_fields(4) [of w md entry s]
  by (cases "check_one w md entry s") simp_all

lemma aborted_check_does_not_fail: "check_aborts md entry \<Longrightarrow> \<not> check_fails md entry"
  by (simp add: check_aborts_def check_fails_def)

lemma check_triggers_loop_logs:
  "trigger_log (state_of (check_triggers_loop w md ts s)) = trigger_log s @ map fst (reached md ts) \<and>
   filter (\<lambda>e. fst e = ERROR) (log (state_of (check_triggers_loop w md ts s))) =
     filter (\<lambda>e. fst e = ERROR) (log s) @
     map (\<lambda>e. (ERROR, fst e)) (filter (check_fails md) (reached md ts)) \<and>
   (returned (check_triggers_loop w md ts s) \<longleftrightarrow> \<not> list_ex (check_aborts md) ts)"
  by (induction ts arbitrary: s)
     (simp_all add: check_one_fields check_triggers_loop_Cons_state check_triggers_loop_Cons_returned
        aborted_check_does_not_fail del: check_triggers_loop.simps(2))

lemma reached_all: "\<not> list_ex (check_aborts md) ts \<Longrightarrow> reached md ts = ts"
  by (induction ts) simp_all

text \<open>
  C9, as amended. A pass of \<open>check_triggers\<close> calls \<open>check\<close> on the registered
  triggers in order, up to and including the first whose check is aborted by an exception
  that is not of class \<open>Exception\<close>; it logs one error for each of these triggers whose
  \<open>try\<close> block raised an \<open>Exception\<close> and no other error, and goes on after each of them.
  It returns exactly when no check is aborted, and then every registered trigger has been
  evaluated.
\<close>

theorem check_triggers_isolates_failures:
  "trigger_log (state_of (check_triggers w s md)) =
     trigger_log s @ map fst (reached md (triggers s)) \<and>
   filter (\<lambda>e. fst e = ERROR) (log (state_of (check_triggers w s md))) =
     filter (\<lambda>e. fst e = ERROR) (log s) @
     map (\<lambda>e. (ERROR, fst e)) (filter (check_fails md) (reached md (triggers s))) \<and>
   (returned (check_triggers w s md) \<longleftrightarrow> \<not> list_ex (check_aborts md) (triggers s)) \<and>
   (\<not> list_ex (check_aborts md) (triggers s) \<longrightarrow>
      trigger_log (state_of (check_triggers w s md)) = trigger_log s @ map fst (triggers s) \<and>
      filter (\<lambda>e. fst e = ERROR) (log (state_of (check_triggers w s md))) =
        filter (\<lambda>e. fst e = ERROR) (log s) @
        map (\<lambda>e. (ERROR, fst e)) (filter (check_fails md) (triggers s)))"
  using check_triggers_loop_logs [of w md "triggers s" s] reached_all [of md "triggers s"]
  unfolding check_triggers_def by auto

section \<open>Rate limiting\<close>

lemma limit_reached_truthy: "limit_reached v n \<Longrightarrow> truthy v"
  by (simp add: limit_reached_def truthy_def split: option.splits)

lemma prune_idem: "prune now (prune now xs) = prune now xs"
  by (simp add: prune_def)

lemma minute_of_prune:
  "filter (\<lambda>ts. ts > now - minute_us) (prune now xs) = filter (\<lambda>ts. ts > now - minute_us) xs"
  by (induction xs) (auto simp: prune_def minute_us_def hour_us_def)

lemma sends_since_pruned:
  "sends_since (tr(k \<mapsto> prune now (tracker_get tr k))) key (now - hour_us) = sends_since tr key (now - hour_us)"
  "sends_since (tr(k \<mapsto> prune now (tracker_get tr k))) key (now - minute_us) = sends_since tr key (now - minute_us)"
  using prune_idem [of now "tracker_get tr k"]
  by (simp_all add: sends_since_def tracker_get_upd minute_of_prune) (simp add: prune_def)

lemma limit_hit_pruned:
  "limit_hit w rl (tr(k \<mapsto> prune now (tracker_get tr k))) now p ch = limit_hit w rl tr now p ch"
  by (simp only: limit_hit_def sends_since_pruned)

lemma limit_hit_pruned_ext:
  "limit_hit w rl (tr(k \<mapsto> prune now (tracker_get tr k))) now p = limit_hit w rl tr now p"
  by (rule ext) (rule limit_hit_pruned)

lemma rate_limit_loop_Cons:
  "rate_limit_loop w rl now p (ch # rest) tr =
     (if \<not> has_limit w rl p ch then rate_limit_loop w rl now p rest tr
      else if limit_hit w rl tr now p ch
           then (False, tr(tracker_key w ch p \<mapsto> prune now (tracker_get tr (tracker_key w ch p))))
           else rate_limit_loop w rl now p rest
                  (tr(tracker_key w ch p \<mapsto> prune now (tracker_get tr (tracker_key w ch p)))))"
  by (auto simp add: Let_def has_limit_def limit_hit_def sends_since_def prune_def
        minute_of_prune [unfolded prune_def] dest: limit_reached_truthy simp del: filter_filter)

lemma no_limit_no_hit: "\<not> has_limit w rl p ch \<Longrightarrow> \<not> limit_hit w rl tr now p ch"
  using limit_reached_truthy by (auto simp: has_limit_def limit_hit_def)

lemma rate_limit_loop_fst:
  "fst (rate_limit_loop w rl now p chs tr) = (\<not> list_ex (limit_hit w rl tr now p) chs)"
proof (induction chs arbitrary: tr)
  case Nil
  show ?case by simp
next
  case (Cons ch rest)
  show ?case
    by (simp only: rate_limit_loop_Cons list_ex_Cons_iff Cons.IH limit_hit_pruned_ext split: if_splits)
       (auto simp: no_limit_no_hit)
qed

lemma rate_limit_loop_tracker_cases:
  "tracker_get (snd (rate_limit_loop w rl now p chs tr)) key = tracker_get tr key \<or>
   tracker_get (snd (rate_limit_loop w rl now p chs tr)) key = prune now (tracker_get tr key)"
proof (induction chs arbitrary: tr)
  case Nil
  show ?case by simp
next
  case (Cons ch rest)
  let ?k = "tracker_key w ch p"
  let ?tr1 = "tr(?k \<mapsto> prune now (tracker_get tr ?k))"
  have g: "tracker_get ?tr1 key = tracker_get tr key \<or> tracker_get ?tr1 key = prune now (tracker_get tr key)"
    by (simp only: tracker_get_upd) simp
  have g': "prune now (tracker_get ?tr1 key) = prune now (tracker_get tr key)"
    by (simp only: tracker_get_upd) (simp add: prune_idem)
  consider "\<not> has_limit w rl p ch" | "has_limit w rl p ch" "limit_hit w rl tr now p ch"
    | "has_limit w rl p ch" "\<not> limit_hit w rl tr now p ch" by blast
  then show ?case
  proof cases
    case 1
    then show ?thesis using Cons.IH [of tr] by (simp only: rate_limit_loop_Cons if_True if_False simp_thms)
  next
    case 2
    then show ?thesis using g by (simp only: rate_limit_loop_Cons if_True if_False simp_thms snd_conv)
  next
    case 3
    then show ?thesis using Cons.IH [of ?tr1] g g'
      by (simp only: rate_limit_loop_Cons if_True if_False simp_thms) metis
  qed
qed

lemma rate_limit_loop_pruned:
  "fst (rate_limit_loop w rl now p chs tr) \<Longrightarrow> ch \<in> set chs \<Longrightarrow> has_limit w rl p ch \<Longrightarrow>
     tracker_get (snd (rate_limit_loop w rl now p chs tr)) (tracker_key w ch p) =
       prune now (tracker_get tr (tracker_key w ch p))"
proof (induction chs arbitrary: tr)
  case Nil
  then show ?case by simp
next
  case (Cons c rest)
  let ?k = "tracker_key w c p"
  let ?key = "tracker_key w ch p"
  let ?tr1 = "tr(?k \<mapsto> prune now (tracker_get tr ?k))"
  have g': "prune now (tracker_get ?tr1 ?key) = prune now (tracker_get tr ?key)"
    by (simp only: tracker_get_upd) (simp add: prune_idem)
  show ?case
  proof (cases "has_limit w rl p c")
    case False
    then have e: "rate_limit_loop w rl now p (c # rest) tr = rate_limit_loop w rl now p rest tr"
      by (simp only: rate_limit_loop_Cons if_True if_False simp_thms)
    have "ch \<in> set rest" using Cons.prems(2,3) False by auto
    then show ?thesis using Cons.IH [of tr] Cons.prems(1,3) by (simp only: e)
  next
    case True
    have nh: "\<not> limit_hit w rl tr now p c"
      using Cons.prems(1) True by (auto simp add: rate_limit_loop_Cons simp del: rate_limit_loop.simps split: if_splits)
    have e: "rate_limit_loop w rl now p (c # rest) tr = rate_limit_loop w rl now p rest ?tr1"
      using True nh by (simp only: rate_limit_loop_Cons if_True if_False simp_thms)
    show ?thesis
    proof (cases "ch \<in> set rest")
      case True
      then show ?thesis using Cons.IH [of ?tr1] Cons.prems(1,3) g' by (simp only: e)
    next
      case False
      then have c: "ch = c" using Cons.prems(2) by simp
      have "tracker_get ?tr1 ?key = prune now (tracker_get tr ?key)"
        unfolding c by (simp only: tracker_get_upd) simp
      then show ?thesis
        using rate_limit_loop_tracker_cases [of w rl now p rest ?tr1 ?key] prune_idem [of now "tracker_get tr ?key"]
        by (simp only: e) metis
    qed
  qed
qed

lemma check_rate_limit_eq:
  "fst (check_rate_limit w s a) =
     fst (rate_limit_loop w (rate_limits s) (now_at w (clock_reads s)) (priority a) (channels a)
            (sent_alerts_tracker s))"
  "sent_alerts_tracker (snd (check_rate_limit w s a)) =
     snd (rate_limit_loop w (rate_limits s) (now_at w (clock_reads s)) (priority a) (channels a)
            (sent_alerts_tracker s))"
  by (simp_all add: check_rate_limit_def datetime_now_def Let_def case_prod_beta)

text \<open>
  C4, as amended. The check passes exactly when no channel of the alert has a limit,
  neither absent nor zero, that the recorded sends of the trailing hour or minute meet.
  An alert with such a channel is rejected as a whole: processing returns and nothing
  is sent, re-queued or added to the history. An alert whose channels have no such limit always passes. After
  a check that passes, the tracker of every channel that has a limit holds exactly its
  timestamps newer than one hour.
\<close>

theorem rate_limit_suppresses_whole_alert:
  "fst (check_rate_limit w s a) =
     (\<not> list_ex (limit_hit w (rate_limits s) (sent_alerts_tracker s) (now_at w (clock_reads s))
                   (priority a)) (channels a)) \<and>
   (r < length (heap s) \<and>
    list_ex (limit_hit w (rate_limits s) (sent_alerts_tracker s) (now_at w (clock_reads s))
               (priority (heap s ! r))) (channels (heap s ! r)) \<longrightarrow>
      returned (process_alert w s r) \<and>
      send_log (state_of (process_alert w s r)) = send_log s \<and>
      alert_queue (state_of (process_alert w s r)) = alert_queue s \<and>
      alert_history (state_of (process_alert w s r)) = alert_history s) \<and>
   (list_all (\<lambda>ch. \<not> has_limit w (rate_limits s) (priority a) ch) (channels a) \<longrightarrow>
      fst (check_rate_limit w s a)) \<and>
   (fst (check_rate_limit w s a) \<longrightarrow>
      list_all (\<lambda>ch. has_limit w (rate_limits s) (priority a) ch \<longrightarrow>
                  tracker_get (sent_alerts_tracker (snd (check_rate_limit w s a)))
                    (tracker_key w ch (priority a)) =
                  prune (now_at w (clock_reads s))
                    (tracker_get (sent_alerts_tracker s) (tracker_key w ch (priority a))))
        (channels a))"
proof -
  let ?now = "now_at w (clock_reads s)"
  have 1: "fst (check_rate_limit w s a) =
     (\<not> list_ex (limit_hit w (rate_limits s) (sent_alerts_tracker s) ?now (priority a)) (channels a))" for a
    by (simp only: check_rate_limit_eq rate_limit_loop_fst)
  have 2: "returned (process_alert w s r) \<and>
      send_log (state_of (process_alert w s r)) = send_log s \<and>
      alert_queue (state_of (process_alert w s r)) = alert_queue s \<and>
      alert_history (state_of (process_alert w s r)) = alert_history s"
    if "r < length (heap s)"
      and "list_ex (limit_hit w (rate_limits s) (sent_alerts_tracker s) ?now (priority (heap s ! r)))
             (channels (heap s ! r))"
  proof -
    have "\<not> fst (check_rate_limit w s (heap s ! r))" using that(2) by (simp only: 1) simp
    then show ?thesis
      using that(1) by (simp add: process_alert_rate_limited check_rate_limit_fields)
  qed
  have 3: "fst (check_rate_limit w s a)"
    if "list_all (\<lambda>ch. \<not> has_limit w (rate_limits s) (priority a) ch) (channels a)"
    using that no_limit_no_hit by (auto simp add: 1 list_all_iff list_ex_iff)
  have 4: "list_all (\<lambda>ch. has_limit w (rate_limits s) (priority a) ch \<longrightarrow>
                  tracker_get (sent_alerts_tracker (snd (check_rate_limit w s a)))
                    (tracker_key w ch (priority a)) =
                  prune ?now (tracker_get (sent_alerts_tracker s) (tracker_key w ch (priority a))))
        (channels a)"
    if "fst (check_rate_limit w s a)"
    using that rate_limit_loop_pruned [of w "rate_limits s" ?now "priority a" "channels a" "sent_alerts_tracker s"]
    by (simp add: check_rate_limit_eq list_all_iff)
  show ?thesis using 1 [of a] 2 3 4 by blast
qed

section \<open>The bound on the history\<close>

lemma cleanup_history_bounded:
  assumes "0 < (case max_history_size (config s) of None \<Rightarrow> 1000 | Some m \<Rightarrow> m)"
  shows "int (length (alert_history (cleanup_history s))) \<le>
           (case max_history_size (config s) of None \<Rightarrow> 1000 | Some m \<Rightarrow> m)"
proof -
  define m where "m = (case max_history_size (config s) of None \<Rightarrow> 1000 | Some m \<Rightarrow> m)"
  have eq: "alert_history (cleanup_history s) =
              (if m < int (length (alert_history s)) then py_slice_from (- m) (alert_history s)
               else alert_history s)"
    by (simp add: cleanup_history_alert_history m_def)
  have "int (length (alert_history (cleanup_history s))) \<le> m"
  proof (cases "m < int (length (alert_history s))")
    case True
    then show ?thesis using assms m_def by (simp add: eq py_slice_from_neg)
  next
    case False
    then show ?thesis by (simp add: eq)
  qed
  then show ?thesis by (simp add: m_def)
qed

lemma cleanup_history_keeps_newest:
  assumes "0 < m" and "max_history_size (config s) = Some m"
    and "m < int (length (alert_history s))"
  shows "alert_history (cleanup_history s) = drop (length (alert_history s) - nat m) (alert_history s)"
  using assms by (simp add: cleanup_history_alert_history py_slice_from_neg)

text \<open>With a bound of zero \<open>cleanup_history\<close> evicts nothing.\<close>

lemma cleanup_history_zero:
  assumes "max_history_size (config s) = Some 0"
  shows "alert_history (cleanup_history s) = alert_history s"
  using assms by (simp add: cleanup_history_alert_history py_slice_from_zero)

text \<open>
  C7. The claim: the history never holds more than \<open>max_history_size\<close> alerts. For a
  positive bound that is so (lemmas \<open>cleanup_history_bounded\<close> and
  \<open>cleanup_history_keeps_newest\<close>). With \<open>max_history_size = 0\<close> the
  slice \<open>alert_history[-0:]\<close> is the whole list, so nothing is ever evicted: after one
  alert the history holds one entry, more than the bound of zero.
\<close>

theorem history_unbounded_for_zero_max:
  "returned (run_worker 1 demo_world unbounded_state) \<and>
   max_history_size (config (state_of (run_worker 1 demo_world unbounded_state))) = Some 0 \<and>
   alert_history (state_of (run_worker 1 demo_world unbounded_state)) = [0] \<and>
   length (alert_history (state_of (run_worker 1 demo_world unbounded_state))) = 1"
proof -
  have e: "let x = run_worker 1 demo_world unbounded_state
           in returned x \<and> max_history_size (config (state_of x)) = Some 0 \<and>
              alert_history (state_of x) = [0] \<and> length (alert_history (state_of x)) = 1"
    by code_simp
  show ?thesis by (rule e [unfolded Let_def])
qed

section \<open>Instances on the example configurations\<close>

text \<open>The alert of \<open>retry_state\<close>, before a worker takes it.\<close>

lemma retry_state_facts:
  "let s = retry_state
   in 0 < length (heap s) \<and>
      fst (check_rate_limit demo_world s (heap s ! 0)) \<and>
      \<not> fst (is_duplicate demo_world (snd (check_rate_limit demo_world s (heap s ! 0))) (heap s ! 0)) \<and>
      list_all (\<lambda>ch. \<not> has_limit demo_world (rate_limits s) (priority (heap s ! 0)) ch)
        (channels (heap s ! 0)) \<and>
      list_all (has_channels (heap s)) (alert_queue s) \<and>
      max_history_size (config s) = None \<and>
      alert_history s = [] \<and>
      map fst (registry s) = [''telegram''] \<and>
      tracker_get (sent_alerts_tracker (snd (check_rate_limit demo_world s (heap s ! 0)))) ''telegram_critical'' = [] \<and>
      length (filter (\<lambda>ch. tracker_key demo_world ch (priority (heap s ! 0)) = ''telegram_critical'')
                (channels (heap s ! 0))) = 1 \<and>
      now_at demo_world (Suc (Suc (clock_reads s))) = 4000000000000"
  by code_simp





lemma retry_after_one_facts:
  "let s = retry_after_one
   in 0 < length (heap s) \<and>
      fst (is_duplicate demo_world (snd (check_rate_limit demo_world s (heap s ! 0))) (heap s ! 0)) \<and>
      send_log s = [(''telegram'', 0, SendRaises)] \<and> alert_queue s = [0] \<and> alert_history s = [0] \<and>
      map retry_count (heap s) = [1] \<and> map priority (heap s) = [CRITICAL]"
  unfolding retry_after_one_def by code_simp

lemma burst_after_two_rejects:
  "let s = burst_after_two
   in 2 < length (heap s) \<and>
      \<not> fst (check_rate_limit burst_world s (heap s ! 2)) \<and>
      send_log s = [(''sms'', 0, SendReturns), (''sms'', 1, SendReturns)] \<and>
      alert_queue s = [2] \<and> alert_history s = [0, 1]"
  unfolding burst_after_two_def by code_simp

text \<open>
  After one iteration the same alert is back on the queue; processing it again finds
  its key recorded and changes neither the sends, the history nor the heap. The third
  alert of the burst is rejected by the rate limit, with the same effect.
\<close>

theorem rejected_alert_is_dropped_witness:
  "0 < length (heap retry_after_one) \<and>
   fst (is_duplicate demo_world (snd (check_rate_limit demo_world retry_after_one (heap retry_after_one ! 0)))
         (heap retry_after_one ! 0)) \<and>
   send_log (state_of (process_alert demo_world retry_after_one 0)) = [(''telegram'', 0, SendRaises)] \<and>
   alert_history (state_of (process_alert demo_world retry_after_one 0)) = [0] \<and>
   heap (state_of (process_alert demo_world retry_after_one 0)) = heap retry_after_one \<and>
   2 < length (heap burst_after_two) \<and>
   \<not> fst (check_rate_limit burst_world burst_after_two (heap burst_after_two ! 2)) \<and>
   send_log (state_of (process_alert burst_world burst_after_two 2)) = [(''sms'', 0, SendReturns), (''sms'', 1, SendReturns)] \<and>
   alert_history (state_of (process_alert burst_world burst_after_two 2)) = [0, 1] \<and>
   heap (state_of (process_alert burst_world burst_after_two 2)) = heap burst_after_two"
proof -
  note f = retry_after_one_facts [unfolded Let_def]
  note b = burst_after_two_rejects [unfolded Let_def]
  have h: "0 < length (heap retry_after_one)" using f by blast
  have d: "\<not> fst (check_rate_limit demo_world retry_after_one (heap retry_after_one ! 0)) \<or>
           fst (is_duplicate demo_world (snd (check_rate_limit demo_world retry_after_one (heap retry_after_one ! 0)))
             (heap retry_after_one ! 0))"
    using f by blast
  have h': "2 < length (heap burst_after_two)" using b by blast
  have d': "\<not> fst (check_rate_limit burst_world burst_after_two (heap burst_after_two ! 2)) \<or>
           fst (is_duplicate burst_world (snd (check_rate_limit burst_world burst_after_two (heap burst_after_two ! 2)))
             (heap burst_after_two ! 2))"
    using b by blast
  show ?thesis
    using rejected_alert_is_dropped [OF h d] rejected_alert_is_dropped [OF h' d'] f b by simp
qed

lemma no_channel_facts:
  "available_channels demo_world (demo_manager []) MEDIUM (Some [''telegram'']) = [] \<and>
   alert_queue (demo_manager []) = [] \<and> heap (demo_manager []) = []"
  by (simp add: available_channels_def demo_manager_def)

text \<open>
  A manager without channels returns \<open>None\<close> and enqueues nothing; an alert created
  on \<open>retry_state\<close> joins a queue whose alerts all have channels, and so does the alert
  that the worker puts back.
\<close>

theorem create_alert_without_channels_witness:
  "available_channels demo_world (demo_manager []) MEDIUM (Some [''telegram'']) = [] \<and>
   fst (create_alert demo_world (demo_manager []) ''Price Spike'' ''BTC +5%'' ''BTCUSDT'' MEDIUM
          (Some [''telegram'']) None) = None \<and>
   alert_queue (snd (create_alert demo_world (demo_manager []) ''Price Spike'' ''BTC +5%'' ''BTCUSDT''
                       MEDIUM (Some [''telegram'']) None)) = [] \<and>
   list_all (has_channels (heap retry_state)) (alert_queue retry_state) \<and>
   list_all
     (has_channels (heap (snd (create_alert demo_world retry_state ''Volume Drop'' ''ETH -3%''
                                 ''ETHUSDT'' HIGH None None))))
     (alert_queue (snd (create_alert demo_world retry_state ''Volume Drop'' ''ETH -3%'' ''ETHUSDT''
                          HIGH None None))) \<and>
   list_all (has_channels (heap (state_of (worker_step demo_world retry_state))))
     (alert_queue (state_of (worker_step demo_world retry_state)))"
proof -
  have q: "list_all (has_channels (heap retry_state)) (alert_queue retry_state)"
    using retry_state_facts [unfolded Let_def] by blast
  show ?thesis
    using no_channel_facts q
      create_alert_without_channels [of demo_world "demo_manager []" MEDIUM "Some [''telegram'']"
        "''Price Spike''" "''BTC +5%''" "''BTCUSDT''" None]
      create_alert_without_channels [of demo_world retry_state HIGH None
        "''Volume Drop''" "''ETH -3%''" "''ETHUSDT''" None]
    by simp
qed




lemma burst_after_two_facts:
  "let s = burst_after_two
   in 2 < length (heap s) \<and>
      list_ex (limit_hit burst_world (rate_limits s) (sent_alerts_tracker s)
                 (now_at burst_world (clock_reads s)) (priority (heap s ! 2)))
        (channels (heap s ! 2)) \<and>
      tracker_get (sent_alerts_tracker s) ''sms_high'' = [8000, 11000] \<and>
      now_at burst_world (clock_reads s) = 12000 \<and>
      send_log s = [(''sms'', 0, SendReturns), (''sms'', 1, SendReturns)] \<and>
      alert_queue s = [2] \<and> alert_history s = [0, 1]"
  unfolding burst_after_two_def by code_simp

lemma spaced_after_two_facts:
  "let s = spaced_after_two
   in channels (heap s ! 2) = [''sms''] \<and>
      has_limit demo_world (rate_limits s) (priority (heap s ! 2)) ''sms'' \<and>
      tracker_key demo_world ''sms'' (priority (heap s ! 2)) = ''sms_high'' \<and>
      fst (check_rate_limit demo_world s (heap s ! 2)) \<and>
      tracker_get (sent_alerts_tracker s) ''sms_high'' = [11000000000000] \<and>
      prune (now_at demo_world (clock_reads s)) (tracker_get (sent_alerts_tracker s) ''sms_high'') = []"
  unfolding spaced_after_two_def by code_simp

text \<open>
  With \<open>max_per_minute = 2\<close> and three alerts within milliseconds, the third meets the
  limit and is dropped whole; the alert of \<open>retry_state\<close> has no limit and passes; with
  readings far apart the third alert passes and the check empties the tracker.
\<close>

theorem rate_limit_suppresses_whole_alert_witness:
  "2 < length (heap burst_after_two) \<and>
   list_ex (limit_hit burst_world (rate_limits burst_after_two) (sent_alerts_tracker burst_after_two)
              (now_at burst_world (clock_reads burst_after_two)) (priority (heap burst_after_two ! 2)))
     (channels (heap burst_after_two ! 2)) \<and>
   \<not> fst (check_rate_limit burst_world burst_after_two (heap burst_after_two ! 2)) \<and>
   send_log (state_of (process_alert burst_world burst_after_two 2)) = [(''sms'', 0, SendReturns), (''sms'', 1, SendReturns)] \<and>
   alert_history (state_of (process_alert burst_world burst_after_two 2)) = [0, 1] \<and>
   list_all (\<lambda>ch. \<not> has_limit demo_world (rate_limits retry_state) (priority (heap retry_state ! 0)) ch)
     (channels (heap retry_state ! 0)) \<and>
   fst (check_rate_limit demo_world retry_state (heap retry_state ! 0)) \<and>
   fst (check_rate_limit demo_world spaced_after_two (heap spaced_after_two ! 2)) \<and>
   has_limit demo_world (rate_limits spaced_after_two) (priority (heap spaced_after_two ! 2)) ''sms'' \<and>
   tracker_get (sent_alerts_tracker spaced_after_two) ''sms_high'' = [11000000000000] \<and>
   tracker_get (sent_alerts_tracker (snd (check_rate_limit demo_world spaced_after_two
                                              (heap spaced_after_two ! 2)))) ''sms_high'' = []"
proof -
  note b = burst_after_two_facts [unfolded Let_def]
  note r = retry_state_facts [unfolded Let_def]
  note d = spaced_after_two_facts [unfolded Let_def]
  note tb = rate_limit_suppresses_whole_alert [of burst_world burst_after_two "heap burst_after_two ! 2" 2]
  note tr = rate_limit_suppresses_whole_alert [of demo_world retry_state "heap retry_state ! 0" 0]
  note td = rate_limit_suppresses_whole_alert [of demo_world spaced_after_two "heap spaced_after_two ! 2" 2]
  have 1: "\<not> fst (check_rate_limit burst_world burst_after_two (heap burst_after_two ! 2))"
    using tb b by blast
  have 2: "send_log (state_of (process_alert burst_world burst_after_two 2)) = [(''sms'', 0, SendReturns), (''sms'', 1, SendReturns)]"
    "alert_history (state_of (process_alert burst_world burst_after_two 2)) = [0, 1]"
  proof -
    have "send_log (state_of (process_alert burst_world burst_after_two 2)) = send_log burst_after_two \<and>
          alert_queue (state_of (process_alert burst_world burst_after_two 2)) = alert_queue burst_after_two \<and>
          alert_history (state_of (process_alert burst_world burst_after_two 2)) = alert_history burst_after_two"
      using tb b by blast
    moreover have "send_log burst_after_two = [(''sms'', 0, SendReturns), (''sms'', 1, SendReturns)]"
      "alert_history burst_after_two = [0, 1]"
      using b by blast+
    ultimately show
      "send_log (state_of (process_alert burst_world burst_after_two 2)) = [(''sms'', 0, SendReturns), (''sms'', 1, SendReturns)]"
      "alert_history (state_of (process_alert burst_world burst_after_two 2)) = [0, 1]"
      by simp_all
  qed
  have 3: "fst (check_rate_limit demo_world retry_state (heap retry_state ! 0))"
    using tr r by blast
  have "list_all (\<lambda>ch. has_limit demo_world (rate_limits spaced_after_two) (priority (heap spaced_after_two ! 2)) ch \<longrightarrow>
                  tracker_get (sent_alerts_tracker (snd (check_rate_limit demo_world spaced_after_two
                                                            (heap spaced_after_two ! 2))))
                    (tracker_key demo_world ch (priority (heap spaced_after_two ! 2))) =
                  prune (now_at demo_world (clock_reads spaced_after_two))
                    (tracker_get (sent_alerts_tracker spaced_after_two)
                       (tracker_key demo_world ch (priority (heap spaced_after_two ! 2)))))
          (channels (heap spaced_after_two ! 2))"
    using td d by blast
  moreover have "channels (heap spaced_after_two ! 2) = [''sms'']"
    "has_limit demo_world (rate_limits spaced_after_two) (priority (heap spaced_after_two ! 2)) ''sms''"
    "tracker_key demo_world ''sms'' (priority (heap spaced_after_two ! 2)) = ''sms_high''"
    "prune (now_at demo_world (clock_reads spaced_after_two))
       (tracker_get (sent_alerts_tracker spaced_after_two) ''sms_high'') = []"
    using d by blast+
  ultimately have 4: "tracker_get (sent_alerts_tracker (snd (check_rate_limit demo_world spaced_after_two
                                              (heap spaced_after_two ! 2)))) ''sms_high'' = []"
    by simp
  show ?thesis using b r d 1 2 3 4 by blast
qed

text \<open>
  Counterexample to C4: \<open>max_per_hour = 0\<close> is configured for \<open>sms\<close> and HIGH, so every
  count meets it; the three alerts are nevertheless all sent within milliseconds. With
  readings \<open>10^6\<close> seconds apart the tracker still holds all three timestamps after the
  third check: nothing older than one hour was pruned.
\<close>

theorem zero_limit_never_rejects:
  "max_per_hour (lookup_limit burst_world (rate_limits (burst_state (Some 0) None)) ''sms'' HIGH) = Some 0 \<and>
   map priority (heap (burst_state (Some 0) None)) = [HIGH, HIGH, HIGH] \<and>
   map channels (heap (burst_state (Some 0) None)) = [[''sms''], [''sms''], [''sms'']] \<and>
   alert_queue (burst_state (Some 0) None) = [0, 1, 2] \<and>
   send_log (state_of (run_worker 3 burst_world (burst_state (Some 0) None))) =
     [(''sms'', 0, SendReturns), (''sms'', 1, SendReturns), (''sms'', 2, SendReturns)] \<and>
   tracker_get (sent_alerts_tracker (state_of (run_worker 3 burst_world (burst_state (Some 0) None)))) ''sms_high'' =
     [8000, 11000, 14000] \<and>
   tracker_get (sent_alerts_tracker (state_of (run_worker 3 demo_world (burst_state (Some 0) None)))) ''sms_high'' =
     [8000000000000, 11000000000000, 14000000000000] \<and>
   hour_us = 3600000000"
proof -
  have e: "let s = burst_state (Some 0) None; s' = state_of (run_worker 3 burst_world s);
               s'' = state_of (run_worker 3 demo_world s)
           in max_per_hour (lookup_limit burst_world (rate_limits s) ''sms'' HIGH) = Some 0 \<and>
              map priority (heap s) = [HIGH, HIGH, HIGH] \<and>
              map channels (heap s) = [[''sms''], [''sms''], [''sms'']] \<and>
              alert_queue s = [0, 1, 2] \<and>
              send_log s' = [(''sms'', 0, SendReturns), (''sms'', 1, SendReturns), (''sms'', 2, SendReturns)] \<and>
              tracker_get (sent_alerts_tracker s') ''sms_high'' = [8000, 11000, 14000] \<and>
              tracker_get (sent_alerts_tracker s'') ''sms_high'' =
                [8000000000000, 11000000000000, 14000000000000] \<and>
              hour_us = 3600000000"
    by code_simp
  show ?thesis by (rule e [unfolded Let_def])
qed


text \<open>
  Counterexample to C9: three registered triggers; the check of the first raises an
  \<open>Exception\<close>, the check of the second is aborted (the task is cancelled while it awaits
  the check). The first failure is logged; the second is neither caught nor logged, the
  pass does not return, and the third trigger, which would fire, is never evaluated.
\<close>

theorem aborted_check_ends_the_pass:
  "map fst (triggers (trigger_state [(''price'', raising_trigger), (''risk'', aborted_trigger),
                                     (''signal'', firing_trigger)])) =
     [''price'', ''risk'', ''signal''] \<and>
   \<not> returned (check_triggers demo_world
                  (trigger_state [(''price'', raising_trigger), (''risk'', aborted_trigger),
                                  (''signal'', firing_trigger)]) []) \<and>
   trigger_log (state_of (check_triggers demo_world
                  (trigger_state [(''price'', raising_trigger), (''risk'', aborted_trigger),
                                  (''signal'', firing_trigger)]) [])) = [''price'', ''risk''] \<and>
   log (state_of (check_triggers demo_world
                  (trigger_state [(''price'', raising_trigger), (''risk'', aborted_trigger),
                                  (''signal'', firing_trigger)]) [])) = [(ERROR, ''price'')] \<and>
   alert_queue (state_of (check_triggers demo_world
                  (trigger_state [(''price'', raising_trigger), (''risk'', aborted_trigger),
                                  (''signal'', firing_trigger)]) [])) = []"
proof -
  have e: "let s = trigger_state [(''price'', raising_trigger), (''risk'', aborted_trigger),
                                  (''signal'', firing_trigger)];
               x = check_triggers demo_world s []
           in map fst (triggers s) = [''price'', ''risk'', ''signal''] \<and>
              \<not> returned x \<and> trigger_log (state_of x) = [''price'', ''risk''] \<and>
              log (state_of x) = [(ERROR, ''price'')] \<and> alert_queue (state_of x) = []"
    by code_simp
  show ?thesis by (rule e [unfolded Let_def])
qed

lemma trigger_state_facts:
  "let s = trigger_state [(''price'', raising_trigger), (''quiet'', quiet_trigger),
                          (''signal'', firing_trigger)]
   in \<not> list_ex (check_aborts []) (triggers s) \<and>
      trigger_log s = [] \<and> log s = [] \<and>
      map fst (triggers s) = [''price'', ''quiet'', ''signal''] \<and>
      map (\<lambda>e. (ERROR, fst e)) (filter (check_fails []) (triggers s)) = [(ERROR, ''price'')] \<and>
      alert_queue (state_of (check_triggers demo_world s [])) = [0]"
  by code_simp

text \<open>
  No check is aborted: the pass returns, all three triggers are evaluated although the
  first raised, exactly that failure is logged, and the alert of the third is enqueued.
\<close>

theorem check_triggers_isolates_failures_witness:
  "\<not> list_ex (check_aborts [])
       (triggers (trigger_state [(''price'', raising_trigger), (''quiet'', quiet_trigger),
                                 (''signal'', firing_trigger)])) \<and>
   returned (check_triggers demo_world
               (trigger_state [(''price'', raising_trigger), (''quiet'', quiet_trigger),
                               (''signal'', firing_trigger)]) []) \<and>
   trigger_log (state_of (check_triggers demo_world
               (trigger_state [(''price'', raising_trigger), (''quiet'', quiet_trigger),
                               (''signal'', firing_trigger)]) [])) = [''price'', ''quiet'', ''signal''] \<and>
   filter (\<lambda>e. fst e = ERROR)
     (log (state_of (check_triggers demo_world
               (trigger_state [(''price'', raising_trigger), (''quiet'', quiet_trigger),
                               (''signal'', firing_trigger)]) []))) = [(ERROR, ''price'')] \<and>
   alert_queue (state_of (check_triggers demo_world
               (trigger_state [(''price'', raising_trigger), (''quiet'', quiet_trigger),
                               (''signal'', firing_trigger)]) [])) = [0]"
proof -
  let ?s = "trigger_state [(''price'', raising_trigger), (''quiet'', quiet_trigger),
                           (''signal'', firing_trigger)]"
  note f = trigger_state_facts [unfolded Let_def]
  note t = check_triggers_isolates_failures [of demo_world ?s "[]"]
  have n: "\<not> list_ex (check_aborts []) (triggers ?s)" using f by blast
  have r: "returned (check_triggers demo_world ?s [])" using t n by blast
  have "trigger_log (state_of (check_triggers demo_world ?s [])) = trigger_log ?s @ map fst (triggers ?s)"
    "filter (\<lambda>e. fst e = ERROR) (log (state_of (check_triggers demo_world ?s []))) =
        filter (\<lambda>e. fst e = ERROR) (log ?s) @
        map (\<lambda>e. (ERROR, fst e)) (filter (check_fails []) (triggers ?s))"
    using t n by blast+
  moreover have "trigger_log ?s = []" "log ?s = []"
    "map fst (triggers ?s) = [''price'', ''quiet'', ''signal'']"
    "map (\<lambda>e. (ERROR, fst e)) (filter (check_fails []) (triggers ?s)) = [(ERROR, ''price'')]"
    using f by blast+
  ultimately have
    "trigger_log (state_of (check_triggers demo_world ?s [])) = [''price'', ''quiet'', ''signal'']"
    "filter (\<lambda>e. fst e = ERROR) (log (state_of (check_triggers demo_world ?s []))) = [(ERROR, ''price'')]"
    by (simp_all only:) simp_all
  then show ?thesis using n r f by blast
qed

end
